theory Spec2Isabelle
  imports Main
begin

section \<open>Timeline gap filling: the GapWriter and what it works on\<close>

text \<open>
  The development embeds the class \<open>GapWriter\<close> (overlap detection, event insertion,
  fragment linking and the two entry points \<open>writeFragmentFill\<close> and \<open>writeContext\<close>).
  JavaScript objects are records, \<open>null\<close>/\<open>undefined\<close> is \<open>None\<close>, a thrown \<open>Error\<close> is
  an \<open>Inl\<close> result, and the transaction is a record that is passed along and returned.
  Every storage call of the class passes the writer's own room id, so one room is modelled.
  A fragment read from storage is a fresh copy (a value), as a read from IndexedDB is.
\<close>

subsection \<open>Direction\<close>

datatype Direction = Forward | Backward

text \<open>Modelled from the spec: \<open>Direction\<close> (its file is absent); two values with
  \<open>isForward\<close>, \<open>isBackward\<close> and \<open>reverse()\<close>.\<close>

definition isForward :: "Direction \<Rightarrow> bool" where
  "isForward d = (d = Forward)"

definition isBackward :: "Direction \<Rightarrow> bool" where
  "isBackward d = (d = Backward)"

definition reverse :: "Direction \<Rightarrow> Direction" where
  "reverse d = (case d of Forward \<Rightarrow> Backward | Backward \<Rightarrow> Forward)"

subsection \<open>Events, members, keys, storage entries\<close>

record Event =
  event_id :: string
  sender :: string
  type_ev :: string
  state_key :: "string option"
  content :: string
  prev_content :: "string option"

text \<open>Modelled from the spec: the constant \<open>EVENT_TYPE\<close> of the absent \<open>RoomMember\<close> module,
  the type of a membership event.\<close>

definition MEMBER_EVENT_TYPE :: string where
  "MEMBER_EVENT_TYPE = ''m.room.member''"

datatype RoomMember = RoomMember (member_displayName: "string option") (member_avatarUrl: "string option")

datatype EventKey = EventKey (key_fragmentId: nat) (key_eventIndex: int)

text \<open>Modelled from the spec: \<open>EventKey.nextKeyForDirection\<close> (file absent) increments the
  event index by one for Forward and decrements it by one for Backward.\<close>

definition nextKeyForDirection :: "EventKey \<Rightarrow> Direction \<Rightarrow> EventKey" where
  "nextKeyForDirection k d =
     (if isForward d then EventKey (key_fragmentId k) (key_eventIndex k + 1)
      else EventKey (key_fragmentId k) (key_eventIndex k - 1))"

record storage_entry =
  fragmentId :: nat
  eventIndex :: int
  event :: Event
  displayName :: "string option"
  avatarUrl :: "string option"

text \<open>Modelled from the spec: \<open>createEventEntry(key, roomId, event)\<close> of the absent
  \<open>common.js\<close> builds the storage entry \<open>{ key, roomId, event }\<close> with no display name yet.\<close>

definition createEventEntry :: "EventKey \<Rightarrow> Event \<Rightarrow> storage_entry" where
  "createEventEntry key ev =
     \<lparr>fragmentId = key_fragmentId key, eventIndex = key_eventIndex key, event = ev,
      displayName = None, avatarUrl = None\<rparr>"

subsection \<open>Fragments and fragment boundary entries\<close>

record Fragment =
  frag_id :: nat
  previousId :: "nat option"
  nextId :: "nat option"
  previousToken :: "string option"
  nextToken :: "string option"
  edgeReached :: "bool option"

record FragmentBoundaryEntry =
  fragment :: Fragment
  isFragmentStart :: bool

text \<open>Modelled from the spec: the derived properties of the absent class
  \<open>FragmentBoundaryEntry\<close>: \<open>fragmentId\<close>, the side-selected \<open>token\<close> and
  \<open>linkedFragmentId\<close>, \<open>hasLinkedFragment\<close>, \<open>edgeReached\<close> and the direction of the
  boundary (a start boundary faces Backward, an end boundary Forward).\<close>

definition fbe_fragmentId :: "FragmentBoundaryEntry \<Rightarrow> nat" where
  "fbe_fragmentId e = frag_id (fragment e)"

definition fbe_direction :: "FragmentBoundaryEntry \<Rightarrow> Direction" where
  "fbe_direction e = (if isFragmentStart e then Backward else Forward)"

definition fbe_token :: "FragmentBoundaryEntry \<Rightarrow> string option" where
  "fbe_token e = (if isFragmentStart e then previousToken (fragment e) else nextToken (fragment e))"

definition fbe_set_token :: "FragmentBoundaryEntry \<Rightarrow> string option \<Rightarrow> FragmentBoundaryEntry" where
  "fbe_set_token e t =
     (if isFragmentStart e then e\<lparr>fragment := (fragment e)\<lparr>previousToken := t\<rparr>\<rparr>
      else e\<lparr>fragment := (fragment e)\<lparr>nextToken := t\<rparr>\<rparr>)"

definition fbe_linkedFragmentId :: "FragmentBoundaryEntry \<Rightarrow> nat option" where
  "fbe_linkedFragmentId e = (if isFragmentStart e then previousId (fragment e) else nextId (fragment e))"

definition fbe_set_linkedFragmentId :: "FragmentBoundaryEntry \<Rightarrow> nat option \<Rightarrow> FragmentBoundaryEntry" where
  "fbe_set_linkedFragmentId e i =
     (if isFragmentStart e then e\<lparr>fragment := (fragment e)\<lparr>previousId := i\<rparr>\<rparr>
      else e\<lparr>fragment := (fragment e)\<lparr>nextId := i\<rparr>\<rparr>)"

definition fbe_hasLinkedFragment :: "FragmentBoundaryEntry \<Rightarrow> bool" where
  "fbe_hasLinkedFragment e = (fbe_linkedFragmentId e \<noteq> None)"

definition fbe_set_edgeReached :: "FragmentBoundaryEntry \<Rightarrow> bool \<Rightarrow> FragmentBoundaryEntry" where
  "fbe_set_edgeReached e b = e\<lparr>fragment := (fragment e)\<lparr>edgeReached := Some b\<rparr>\<rparr>"

definition withUpdatedFragment :: "FragmentBoundaryEntry \<Rightarrow> Fragment \<Rightarrow> FragmentBoundaryEntry" where
  "withUpdatedFragment e f = \<lparr>fragment = f, isFragmentStart = isFragmentStart e\<rparr>"

datatype entry = EventEntry storage_entry | BoundaryEntry FragmentBoundaryEntry

text \<open>Modelled from the spec: \<open>directionalAppend\<close> of the absent \<open>common.js\<close>: push to the
  tail for Forward, unshift to the head for Backward.\<close>

definition directionalAppend :: "'a list \<Rightarrow> 'a \<Rightarrow> Direction \<Rightarrow> 'a list" where
  "directionalAppend xs x d = (if isForward d then xs @ [x] else x # xs)"

subsection \<open>The transaction: the timeline event store and the fragment store\<close>

record txn =
  timelineEvents :: "storage_entry list"
  timelineFragments :: "Fragment list"

text \<open>Modelled from the spec: \<open>txn.timelineEvents.insert(entry)\<close> (storage layer absent)
  adds the entry to the store.\<close>

definition insert_timelineEvents :: "txn \<Rightarrow> storage_entry \<Rightarrow> txn" where
  "insert_timelineEvents t e = t\<lparr>timelineEvents := timelineEvents t @ [e]\<rparr>"

text \<open>Modelled from the spec: \<open>txn.timelineEvents.getByEventId(roomId, id)\<close> (storage layer
  absent) is the stored entry with that event id, if any.\<close>

definition getByEventId :: "txn \<Rightarrow> string \<Rightarrow> storage_entry option" where
  "getByEventId t i = find (\<lambda>e. event_id (event e) = i) (timelineEvents t)"

text \<open>Modelled from the spec: \<open>txn.timelineEvents.findFirstOccurringEventId(roomId, ids)\<close>
  (storage layer absent) is the first id of the list that already exists on disk.\<close>

definition findFirstOccurringEventId :: "txn \<Rightarrow> string list \<Rightarrow> string option" where
  "findFirstOccurringEventId t ids = find (\<lambda>i. getByEventId t i \<noteq> None) ids"

text \<open>Modelled from the spec: \<open>txn.timelineEvents.firstEvents(roomId, fragId, 1)\<close> and
  \<open>lastEvents(roomId, fragId, 1)\<close> (storage layer absent): the event at the lower,
  respectively upper, edge of the fragment, that is the one with the least, respectively
  greatest, event index; nothing for a fragment without events.\<close>

definition firstEvent :: "txn \<Rightarrow> nat \<Rightarrow> storage_entry option" where
  "firstEvent t fid =
     (case filter (\<lambda>e. fragmentId e = fid) (timelineEvents t) of
        [] \<Rightarrow> None
      | x # xs \<Rightarrow> Some (fold (\<lambda>e m. if eventIndex e < eventIndex m then e else m) xs x))"

definition lastEvent :: "txn \<Rightarrow> nat \<Rightarrow> storage_entry option" where
  "lastEvent t fid =
     (case filter (\<lambda>e. fragmentId e = fid) (timelineEvents t) of
        [] \<Rightarrow> None
      | x # xs \<Rightarrow> Some (fold (\<lambda>e m. if eventIndex m < eventIndex e then e else m) xs x))"

text \<open>Modelled from the spec: \<open>txn.timelineFragments.get(roomId, id)\<close> (storage layer
  absent) is the stored fragment with that id, if any; the store is keyed by the id the
  fragment itself carries.\<close>

definition get_timelineFragments :: "txn \<Rightarrow> nat \<Rightarrow> Fragment option" where
  "get_timelineFragments t i = find (\<lambda>g. frag_id g = i) (timelineFragments t)"

text \<open>Modelled from the spec: \<open>txn.timelineFragments.update(fragment)\<close> (storage layer
  absent) writes the record under its id: it replaces the stored fragment with that id, or
  adds the record when there is none.\<close>

definition update_timelineFragments :: "txn \<Rightarrow> Fragment \<Rightarrow> txn" where
  "update_timelineFragments t f =
     t\<lparr>timelineFragments :=
         (if find (\<lambda>g. frag_id g = frag_id f) (timelineFragments t) = None
          then timelineFragments t @ [f]
          else map (\<lambda>g. if frag_id g = frag_id f then f else g) (timelineFragments t))\<rparr>"

text \<open>Modelled from the spec: \<open>txn.timelineFragments.add(fragment)\<close> (storage layer absent)
  adds a new record.\<close>

definition add_timelineFragments :: "txn \<Rightarrow> Fragment \<Rightarrow> txn" where
  "add_timelineFragments t f = t\<lparr>timelineFragments := timelineFragments t @ [f]\<rparr>"

text \<open>Modelled from the spec: \<open>txn.timelineFragments.getMaxFragmentId(roomId)\<close> (storage
  layer absent) is the greatest fragment id of the room, taken as 0 when it has none.\<close>

definition getMaxFragmentId :: "txn \<Rightarrow> nat" where
  "getMaxFragmentId t = fold max (map frag_id (timelineFragments t)) 0"

subsection \<open>Collaborators of the writer, errors, results\<close>

text \<open>
  The relation writer, the two constructors of \<open>RoomMember\<close> and the neutral midpoint of
  \<open>EventKey.defaultFragmentKey\<close> are not part of the sources; the writer takes them as the
  fields of \<open>this\<close>. \<open>writeGapRelation\<close> yields the updated relation targets (or nothing);
  the relation bookkeeping it keeps on entries is outside the storage entries modelled here.
\<close>

record GapWriter =
  writeGapRelation :: "storage_entry \<Rightarrow> Direction \<Rightarrow> txn \<Rightarrow> storage_entry list option"
  fromMemberEvent :: "Event \<Rightarrow> RoomMember option"
  fromReplacingMemberEvent :: "Event \<Rightarrow> RoomMember option"
  middleStorageKey :: int

text \<open>Modelled from the spec: \<open>EventKey.defaultFragmentKey(fragmentId)\<close> (file absent) is the
  neutral midpoint of the fragment.\<close>

definition defaultFragmentKey :: "GapWriter \<Rightarrow> nat \<Rightarrow> EventKey" where
  "defaultFragmentKey this fid = EventKey fid (middleStorageKey this)"

datatype error =
    InvalidChunk
  | InvalidEndToken
  | UnknownFragment nat
  | StartNotEqualToken
  | InvalidChunks
  | MissingTokens
  | PreventedChangingLink nat
  | FirstOccurringNotInChunk
  | TypeError

record overlap =
  nonOverlappingEvents :: "Event list"
  neighbourFragmentEntry :: "FragmentBoundaryEntry option"

record write_result =
  entries :: "entry list"
  updatedEntries :: "storage_entry list"
  fragments :: "Fragment list"
  contextEvent :: "entry option"

record messages_response =
  chunk :: "Event list option"
  start_msg :: "string option"
  end_msg :: "string option"
  state_msg :: "Event list option"

record context_response =
  event_ctx :: Event
  events_before :: "Event list option"
  events_after :: "Event list option"
  start_ctx :: "string option"
  end_ctx :: "string option"
  state_ctx :: "Event list option"

text \<open>The truth value JavaScript gives a string that may be \<open>null\<close>/\<open>undefined\<close>: the empty
  string is falsy.\<close>

definition truthy :: "string option \<Rightarrow> bool" where
  "truthy s = (case s of None \<Rightarrow> False | Some v \<Rightarrow> v \<noteq> [])"

text \<open>\<open>Array.prototype.findIndex\<close>, with \<open>None\<close> for \<open>-1\<close>.\<close>

fun findIndex :: "('a \<Rightarrow> bool) \<Rightarrow> 'a list \<Rightarrow> nat option" where
  "findIndex p [] = None"
| "findIndex p (x # xs) = (if p x then Some 0 else map_option Suc (findIndex p xs))"

subsection \<open>Fragment edges\<close>

definition findFragmentEdgeEvent :: "txn \<Rightarrow> nat \<Rightarrow> Direction \<Rightarrow> storage_entry option" where
  "findFragmentEdgeEvent t fid direction =
     (if isBackward direction then firstEvent t fid else lastEvent t fid)"

definition findExpectedOverlappingEventId :: "txn \<Rightarrow> nat \<Rightarrow> Direction \<Rightarrow> string option" where
  "findExpectedOverlappingEventId t linkedFragmentId direction =
     (case findFragmentEdgeEvent t linkedFragmentId (reverse direction) of
        Some eventEntry \<Rightarrow> Some (event_id (event eventEntry))
      | None \<Rightarrow> None)"

definition findFragmentEdgeEventKey :: "GapWriter \<Rightarrow> txn \<Rightarrow> FragmentBoundaryEntry \<Rightarrow> EventKey" where
  "findFragmentEdgeEventKey this t fragmentEntry =
     (case findFragmentEdgeEvent t (fbe_fragmentId fragmentEntry) (fbe_direction fragmentEntry) of
        Some ev \<Rightarrow> EventKey (fragmentId ev) (eventIndex ev)
      | None \<Rightarrow> defaultFragmentKey this (fbe_fragmentId fragmentEntry))"

subsection \<open>Overlap detection\<close>

text \<open>The lookup of the neighbour fragment inside the loop of
  \<open>_findOverlappingEventsFor\<close>: the stored event with the duplicate id, then the fragment it
  belongs to, wrapped as \<open>new FragmentBoundaryEntry(neighbourFragment, direction.isForward)\<close>.
  A missing event or fragment makes the later property access fail with a \<open>TypeError\<close>.\<close>

definition lookupNeighbour :: "txn \<Rightarrow> Direction \<Rightarrow> string \<Rightarrow> error + FragmentBoundaryEntry" where
  "lookupNeighbour t direction duplicateEventId =
     (case getByEventId t duplicateEventId of
        None \<Rightarrow> Inl TypeError
      | Some neighbourEvent \<Rightarrow>
          (case get_timelineFragments t (fragmentId neighbourEvent) of
             None \<Rightarrow> Inl TypeError
           | Some neighbourFragment \<Rightarrow>
               Inr \<lparr>fragment = neighbourFragment, isFragmentStart = isForward direction\<rparr>))"

text \<open>The \<open>while\<close> loop of \<open>_findOverlappingEventsFor\<close>; its variables \<open>remainingEvents\<close>,
  \<open>nonOverlappingEvents\<close> and \<open>neighbourFragmentEntry\<close> are the last three arguments.\<close>

function findOverlappingEvents_loop ::
  "txn \<Rightarrow> string option \<Rightarrow> Direction \<Rightarrow> Event list \<Rightarrow> Event list \<Rightarrow>
   FragmentBoundaryEntry option \<Rightarrow> error + overlap" where
  "findOverlappingEvents_loop t expectedOverlappingEventId direction remainingEvents nonOverlapping neighbour =
     (if remainingEvents \<noteq> [] then
        (let eventIds = map event_id remainingEvents;
             duplicateEventId = findFirstOccurringEventId t eventIds
         in if truthy duplicateEventId then
              (case findIndex (\<lambda>e. Some (event_id e) = duplicateEventId) remainingEvents of
                 None \<Rightarrow> Inl FirstOccurringNotInChunk
               | Some duplicateEventIndex \<Rightarrow>
                   (let nonOverlapping1 = nonOverlapping @ take duplicateEventIndex remainingEvents in
                    (case (if (\<not> truthy expectedOverlappingEventId
                               \<or> duplicateEventId = expectedOverlappingEventId) \<and> neighbour = None
                           then map_sum id Some (lookupNeighbour t direction (the duplicateEventId))
                           else Inr neighbour) of
                       Inl err \<Rightarrow> Inl err
                     | Inr neighbour1 \<Rightarrow>
                         findOverlappingEvents_loop t expectedOverlappingEventId direction
                           (drop (duplicateEventIndex + 1) remainingEvents) nonOverlapping1 neighbour1)))
            else Inr \<lparr>nonOverlappingEvents = nonOverlapping @ remainingEvents,
                      neighbourFragmentEntry = neighbour\<rparr>)
      else Inr \<lparr>nonOverlappingEvents = nonOverlapping, neighbourFragmentEntry = neighbour\<rparr>)"
  by pat_completeness auto
termination
  by (relation "measure (\<lambda>(t, ex, d, remainingEvents, acc, n). length remainingEvents)") auto

definition findOverlappingEventsFor ::
  "txn \<Rightarrow> nat option \<Rightarrow> nat option \<Rightarrow> Direction \<Rightarrow> Event list \<Rightarrow> error + overlap" where
  "findOverlappingEventsFor t currentFragmentId linkedFragmentId direction events =
     (let expectedOverlappingEventId =
            (case linkedFragmentId of
               Some l \<Rightarrow> findExpectedOverlappingEventId t l direction
             | None \<Rightarrow> None)
      in case findOverlappingEvents_loop t expectedOverlappingEventId direction events [] None of
           Inl err \<Rightarrow> Inl err
         | Inr r \<Rightarrow>
             (case neighbourFragmentEntry r of
                Some n \<Rightarrow>
                  if Some (fbe_fragmentId n) = currentFragmentId
                  then Inr (r\<lparr>neighbourFragmentEntry := None\<rparr>)
                  else Inr r
              | None \<Rightarrow> Inr r))"

definition findOverlappingEvents :: "txn \<Rightarrow> FragmentBoundaryEntry \<Rightarrow> Event list \<Rightarrow> error + overlap" where
  "findOverlappingEvents t fragmentEntry events =
     (let linkedFragmentId =
            (if fbe_hasLinkedFragment fragmentEntry then fbe_linkedFragmentId fragmentEntry else None)
      in findOverlappingEventsFor t (Some (fbe_fragmentId fragmentEntry)) linkedFragmentId
           (fbe_direction fragmentEntry) events)"

subsection \<open>Sender resolution\<close>

definition isOurUser :: "string \<Rightarrow> Event \<Rightarrow> bool" where
  "isOurUser userId ev = (type_ev ev = MEMBER_EVENT_TYPE \<and> state_key ev = Some userId)"

text \<open>One \<open>for\<close> loop of \<open>_findMember\<close>: from index \<open>i\<close>, while \<open>i >= 0 && i < events.length\<close>,
  stepping by \<open>+1\<close> (\<open>ascending\<close>) or by \<open>-1\<close>; the first event of our user ends it.\<close>

function findMember_scan :: "(Event \<Rightarrow> bool) \<Rightarrow> Event list \<Rightarrow> int \<Rightarrow> bool \<Rightarrow> Event option" where
  "findMember_scan p events i ascending =
     (if 0 \<le> i \<and> i < int (length events) then
        (let ev = events ! nat i in
         if p ev then Some ev
         else findMember_scan p events (if ascending then i + 1 else i - 1) ascending)
      else None)"
  by pat_completeness auto
termination
  by (relation "measure (\<lambda>(p, events, i, ascending).
        if ascending then nat (int (length events) - i) else nat (i + 1))") auto

definition findMember ::
  "GapWriter \<Rightarrow> string \<Rightarrow> Event list option \<Rightarrow> Event list \<Rightarrow> int \<Rightarrow> Direction \<Rightarrow> RoomMember option" where
  "findMember this userId state events index direction =
     (let inc = (if isBackward direction then 1 else - 1 :: int) in
      case findMember_scan (isOurUser userId) events (index + inc) (inc = 1) of
        Some ev \<Rightarrow> fromMemberEvent this ev
      | None \<Rightarrow>
          (case findMember_scan (isOurUser userId) events index (- inc = 1) of
             Some ev \<Rightarrow> fromReplacingMemberEvent this ev
           | None \<Rightarrow>
               (case state of
                  None \<Rightarrow> None
                | Some st \<Rightarrow>
                    (case find (isOurUser userId) st of
                       Some stateMemberEvent \<Rightarrow> fromMemberEvent this stateMemberEvent
                     | None \<Rightarrow> None))))"

subsection \<open>Storing events\<close>

text \<open>The body of the \<open>for\<close> loop of \<open>_storeEvents\<close> up to the storage entry that is
  inserted: the entry at the next key, stamped with the member's display name and avatar
  when a member was found.\<close>

definition stampedEntry ::
  "GapWriter \<Rightarrow> Event list \<Rightarrow> Event list option \<Rightarrow> Direction \<Rightarrow> EventKey \<Rightarrow> nat \<Rightarrow> storage_entry" where
  "stampedEntry this events state direction key i =
     (let ev = events ! i;
          eventStorageEntry = createEventEntry key ev
      in case findMember this (sender ev) state events (int i) direction of
           Some member \<Rightarrow>
             eventStorageEntry\<lparr>displayName := member_displayName member,
                               avatarUrl := member_avatarUrl member\<rparr>
         | None \<Rightarrow> eventStorageEntry)"

function storeEvents_loop ::
  "GapWriter \<Rightarrow> Event list \<Rightarrow> Direction \<Rightarrow> Event list option \<Rightarrow> nat \<Rightarrow> EventKey \<Rightarrow>
   entry list \<Rightarrow> storage_entry list \<Rightarrow> txn \<Rightarrow> (entry list \<times> storage_entry list) \<times> txn" where
  "storeEvents_loop this events direction state i key es us t =
     (if i < length events then
        (let key1 = nextKeyForDirection key direction;
             eventStorageEntry = stampedEntry this events state direction key1 i;
             us1 = (case writeGapRelation this eventStorageEntry direction t of
                      Some updatedRelationTargetEntries \<Rightarrow> us @ updatedRelationTargetEntries
                    | None \<Rightarrow> us);
             t1 = insert_timelineEvents t eventStorageEntry;
             es1 = directionalAppend es (EventEntry eventStorageEntry) direction
         in storeEvents_loop this events direction state (i + 1) key1 es1 us1 t1)
      else ((es, us), t))"
  by pat_completeness auto
termination
  by (relation "measure (\<lambda>(this, events, d, st, i, k, es, us, t). length events - i)") auto

definition storeEvents ::
  "GapWriter \<Rightarrow> Event list \<Rightarrow> EventKey \<Rightarrow> Direction \<Rightarrow> Event list option \<Rightarrow> txn \<Rightarrow>
   (entry list \<times> storage_entry list) \<times> txn" where
  "storeEvents this events startKey direction state t =
     storeEvents_loop this events direction state 0 startKey [] [] t"

subsection \<open>Linking fragments\<close>

text \<open>
  \<open>_updateFragments\<close> mutates the two boundary entries in place and appends them to
  \<open>entries\<close> by reference, so the list ends up holding the entries as they are after the
  mutations; the model returns the changed fragments together with the new \<open>entries\<close>.
  Nothing is written before the two link checks, so a throw leaves the transaction as it was.
\<close>

definition updateFragments ::
  "FragmentBoundaryEntry \<Rightarrow> FragmentBoundaryEntry option \<Rightarrow> string option \<Rightarrow> entry list \<Rightarrow> txn \<Rightarrow>
   (error + (Fragment list \<times> entry list)) \<times> txn" where
  "updateFragments fragmentEntry neighbourFragmentEntry0 end_token es t =
     (let direction = fbe_direction fragmentEntry in
      case neighbourFragmentEntry0 of
        Some neighbourEntry \<Rightarrow>
          if fbe_hasLinkedFragment fragmentEntry
             \<and> fbe_linkedFragmentId fragmentEntry \<noteq> Some (fbe_fragmentId neighbourEntry)
          then (Inl (PreventedChangingLink (fbe_fragmentId fragmentEntry)), t)
          else
            (let fragmentEntry1 =
                   (if \<not> fbe_hasLinkedFragment fragmentEntry
                    then fbe_set_linkedFragmentId fragmentEntry (Some (fbe_fragmentId neighbourEntry))
                    else fragmentEntry)
             in if fbe_hasLinkedFragment neighbourEntry
                   \<and> fbe_linkedFragmentId neighbourEntry \<noteq> Some (fbe_fragmentId fragmentEntry1)
                then (Inl (PreventedChangingLink (fbe_fragmentId neighbourEntry)), t)
                else
                  (let neighbourEntry1 =
                         (if \<not> fbe_hasLinkedFragment neighbourEntry
                          then fbe_set_linkedFragmentId neighbourEntry (Some (fbe_fragmentId fragmentEntry1))
                          else neighbourEntry);
                       neighbourEntry2 = fbe_set_token neighbourEntry1 None;
                       fragmentEntry2 = fbe_set_token fragmentEntry1 None;
                       t1 = update_timelineFragments t (fragment neighbourEntry2);
                       es1 = directionalAppend
                               (directionalAppend es (BoundaryEntry fragmentEntry2) direction)
                               (BoundaryEntry neighbourEntry2) direction;
                       changedFragments = [fragment fragmentEntry2, fragment neighbourEntry2];
                       t2 = update_timelineFragments t1 (fragment fragmentEntry2)
                   in (Inr (changedFragments, es1), t2)))
      | None \<Rightarrow>
          (let fragmentEntry1 = fbe_set_token fragmentEntry end_token;
               es1 = directionalAppend es (BoundaryEntry fragmentEntry1) direction;
               t1 = update_timelineFragments t (fragment fragmentEntry1)
           in (Inr ([], es1), t1)))"

text \<open>The \<open>id\<close> that \<open>entries.find(e => e.id === event.event_id)\<close> compares: the event id
  of an event entry; a boundary entry has none.\<close>

definition entry_id :: "entry \<Rightarrow> string option" where
  "entry_id e = (case e of EventEntry se \<Rightarrow> Some (event_id (event se)) | BoundaryEntry b \<Rightarrow> None)"

definition linkOverlapping ::
  "GapWriter \<Rightarrow> overlap \<Rightarrow> overlap \<Rightarrow> Event \<Rightarrow> string option \<Rightarrow> Event list option \<Rightarrow> txn \<Rightarrow>
   (error + write_result) \<times> txn" where
  "linkOverlapping this mainOverlap otherOverlap ev token state t =
     (case neighbourFragmentEntry mainOverlap of
        None \<Rightarrow> (Inl TypeError, t)
      | Some fragmentEntry \<Rightarrow>
          (let otherEntry = neighbourFragmentEntry otherOverlap;
               allEvents = rev (nonOverlappingEvents mainOverlap) @ [ev] @ nonOverlappingEvents otherOverlap;
               lastKey = findFragmentEdgeEventKey this t fragmentEntry
           in case storeEvents this allEvents lastKey (fbe_direction fragmentEntry) state t of
                ((es, us), t1) \<Rightarrow>
                  (case updateFragments fragmentEntry otherEntry token es t1 of
                     (Inl err, t2) \<Rightarrow> (Inl err, t2)
                   | (Inr (changed, es1), t2) \<Rightarrow>
                       (Inr \<lparr>entries = es1, updatedEntries = us, fragments = changed,
                             contextEvent = find (\<lambda>e. entry_id e = Some (event_id ev)) es1\<rparr>, t2))))"

definition createNewFragment :: "txn \<Rightarrow> Fragment \<times> txn" where
  "createNewFragment t =
     (let maxFragmentKey = getMaxFragmentId t;
          newFragment = \<lparr>frag_id = maxFragmentKey + 1, previousId = None, nextId = None,
                         previousToken = None, nextToken = None, edgeReached = None\<rparr>
      in (newFragment, add_timelineFragments t newFragment))"

text \<open>Modelled from the spec: \<open>FragmentBoundaryEntry.end(fragment)\<close> (class absent) is the
  end boundary of the fragment.\<close>

definition fbe_end :: "Fragment \<Rightarrow> FragmentBoundaryEntry" where
  "fbe_end f = \<lparr>fragment = f, isFragmentStart = False\<rparr>"

subsection \<open>The two entry points\<close>

definition writeContext :: "GapWriter \<Rightarrow> context_response \<Rightarrow> txn \<Rightarrow> (error + write_result) \<times> txn" where
  "writeContext this response t =
     (case (events_before response, events_after response) of
        (Some eventsBefore, Some eventsAfter) \<Rightarrow>
          if \<not> truthy (start_ctx response) \<or> \<not> truthy (end_ctx response) then (Inl MissingTokens, t)
          else
            (case getByEventId t (event_id (event_ctx response)) of
               Some eventEntry \<Rightarrow>
                 (Inr \<lparr>entries = [], updatedEntries = [], fragments = [],
                       contextEvent = Some (EventEntry eventEntry)\<rparr>, t)
             | None \<Rightarrow>
                 (case findOverlappingEventsFor t None None Backward eventsBefore of
                    Inl err \<Rightarrow> (Inl err, t)
                  | Inr overlapUp \<Rightarrow>
                      (case findOverlappingEventsFor t None None Forward eventsAfter of
                         Inl err \<Rightarrow> (Inl err, t)
                       | Inr overlapDown \<Rightarrow>
                           if neighbourFragmentEntry overlapUp \<noteq> None then
                             linkOverlapping this overlapUp overlapDown (event_ctx response)
                               (end_ctx response) (state_ctx response) t
                           else if neighbourFragmentEntry overlapDown \<noteq> None then
                             linkOverlapping this overlapDown overlapUp (event_ctx response)
                               (start_ctx response) (state_ctx response) t
                           else
                             (case createNewFragment t of
                                (newFragment0, t1) \<Rightarrow>
                                  (let newFragment = newFragment0\<lparr>nextToken := end_ctx response,
                                                                   previousToken := start_ctx response\<rparr>;
                                       newEntry = fbe_end newFragment;
                                       overlapUp1 = overlapUp\<lparr>neighbourFragmentEntry := Some newEntry\<rparr>
                                   in linkOverlapping this overlapUp1 overlapDown (event_ctx response)
                                        (end_ctx response) (state_ctx response) t1)))))
      | _ \<Rightarrow> (Inl InvalidChunks, t))"

definition writeFragmentFill ::
  "GapWriter \<Rightarrow> FragmentBoundaryEntry \<Rightarrow> messages_response \<Rightarrow> txn \<Rightarrow> (error + write_result) \<times> txn" where
  "writeFragmentFill this fragmentEntry0 response t =
     (let fragmentId0 = fbe_fragmentId fragmentEntry0;
          direction = fbe_direction fragmentEntry0
      in case chunk response of
           None \<Rightarrow> (Inl InvalidChunk, t)
         | Some chunk0 \<Rightarrow>
             (case end_msg response of
                None \<Rightarrow> (Inl InvalidEndToken, t)
              | Some end0 \<Rightarrow>
                  (case get_timelineFragments t fragmentId0 of
                     None \<Rightarrow> (Inl (UnknownFragment fragmentId0), t)
                   | Some fragment0 \<Rightarrow>
                       (let fragmentEntry = withUpdatedFragment fragmentEntry0 fragment0 in
                        if fbe_token fragmentEntry \<noteq> start_msg response then (Inl StartNotEqualToken, t)
                        else if chunk0 = [] then
                          (let fragmentEntry1 = fbe_set_edgeReached fragmentEntry True;
                               t1 = update_timelineFragments t (fragment fragmentEntry1)
                           in (Inr \<lparr>entries = [BoundaryEntry fragmentEntry1], updatedEntries = [],
                                    fragments = [], contextEvent = None\<rparr>, t1))
                        else
                          (let lastKey = findFragmentEdgeEventKey this t fragmentEntry in
                           case findOverlappingEvents t fragmentEntry chunk0 of
                             Inl err \<Rightarrow> (Inl err, t)
                           | Inr ov \<Rightarrow>
                               (let end1 = (if neighbourFragmentEntry ov = None
                                               \<and> nonOverlappingEvents ov = []
                                            then None else Some end0)
                                in case storeEvents this (nonOverlappingEvents ov) lastKey direction
                                          (state_msg response) t of
                                     ((es, us), t1) \<Rightarrow>
                                       (case updateFragments fragmentEntry (neighbourFragmentEntry ov) end1 es t1 of
                                          (Inl err, t2) \<Rightarrow> (Inl err, t2)
                                        | (Inr (changed, es1), t2) \<Rightarrow>
                                            (Inr \<lparr>entries = es1, updatedEntries = us, fragments = changed,
                                                  contextEvent = None\<rparr>, t2))))))))"

section \<open>The specification's wording, to compare the code with\<close>

text \<open>
  Sender resolution as the specification words it, on the chunk as a list: the events that
  are chronologically older than \<open>events[index]\<close>, nearest first (higher indices for
  Backward, lower indices for Forward), and the events that are chronologically newer than
  \<open>events[index]\<close>, nearest first (lower indices for Backward, higher for Forward). Neither
  list holds \<open>events[index]\<close> itself.
\<close>

definition spec_olderEvents :: "Direction \<Rightarrow> Event list \<Rightarrow> nat \<Rightarrow> Event list" where
  "spec_olderEvents direction events index =
     (case direction of
        Backward \<Rightarrow> drop (index + 1) events
      | Forward \<Rightarrow> rev (take index events))"

definition spec_newerEvents :: "Direction \<Rightarrow> Event list \<Rightarrow> nat \<Rightarrow> Event list" where
  "spec_newerEvents direction events index =
     (case direction of
        Backward \<Rightarrow> rev (take index events)
      | Forward \<Rightarrow> drop (index + 1) events)"

definition spec_senderResolution ::
  "GapWriter \<Rightarrow> string \<Rightarrow> Event list option \<Rightarrow> Event list \<Rightarrow> nat \<Rightarrow> Direction \<Rightarrow> RoomMember option" where
  "spec_senderResolution this userId state events index direction =
     (case find (isOurUser userId) (spec_olderEvents direction events index) of
        Some older \<Rightarrow> fromMemberEvent this older
      | None \<Rightarrow>
          (case find (isOurUser userId) (spec_newerEvents direction events index) of
             Some newer \<Rightarrow> fromReplacingMemberEvent this newer
           | None \<Rightarrow>
               (case state of
                  None \<Rightarrow> None
                | Some st \<Rightarrow>
                    (case find (isOurUser userId) st of
                       Some stateEvent \<Rightarrow> fromMemberEvent this stateEvent
                     | None \<Rightarrow> None))))"

text \<open>
  The same resolution with the second scan begun at \<open>events[index]\<close> itself, before the
  newer events: what the second loop of \<open>_findMember\<close>, which starts at \<open>i = index\<close>, is
  shown to compute.
\<close>

definition senderResolution_fromOwnIndex ::
  "GapWriter \<Rightarrow> string \<Rightarrow> Event list option \<Rightarrow> Event list \<Rightarrow> nat \<Rightarrow> Direction \<Rightarrow> RoomMember option" where
  "senderResolution_fromOwnIndex this userId state events index direction =
     (case find (isOurUser userId) (spec_olderEvents direction events index) of
        Some older \<Rightarrow> fromMemberEvent this older
      | None \<Rightarrow>
          (case find (isOurUser userId) (events ! index # spec_newerEvents direction events index) of
             Some ownOrNewer \<Rightarrow> fromReplacingMemberEvent this ownOrNewer
           | None \<Rightarrow>
               (case state of
                  None \<Rightarrow> None
                | Some st \<Rightarrow>
                    (case find (isOurUser userId) st of
                       Some stateEvent \<Rightarrow> fromMemberEvent this stateEvent
                     | None \<Rightarrow> None))))"

text \<open>The token invariant of the data model, for one side of a fragment: the token is
  non-null iff the side is neither linked nor at the edge of history.\<close>

definition spec_tokenInvariant :: "FragmentBoundaryEntry \<Rightarrow> bool" where
  "spec_tokenInvariant e =
     ((fbe_token e \<noteq> None) =
      (\<not> (fbe_hasLinkedFragment e \<or> edgeReached (fragment e) = Some True)))"

text \<open>Invariant 4 of the specification, for one fragment: its id is neither its
  \<open>previousId\<close> nor its \<open>nextId\<close>.\<close>

definition spec_noSelfLink :: "Fragment \<Rightarrow> bool" where
  "spec_noSelfLink f = (previousId f \<noteq> Some (frag_id f) \<and> nextId f \<noteq> Some (frag_id f))"

text \<open>An event id is on disk when the store has an entry for it.\<close>

definition onDisk :: "txn \<Rightarrow> Event \<Rightarrow> bool" where
  "onDisk t ev = (getByEventId t (event_id ev) \<noteq> None)"

text \<open>A call succeeded when it returned a result rather than throwing.\<close>

definition succeeded :: "(error + 'a) \<times> txn \<Rightarrow> bool" where
  "succeeded r = (case fst r of Inr v \<Rightarrow> True | Inl err \<Rightarrow> False)"

text \<open>Two boundary entries are joined in a transaction when each names the other's fragment
  on its side, both tokens on these sides are null, and the fragments are stored so (the
  second one when it is another fragment than the first).\<close>

definition joined :: "txn \<Rightarrow> FragmentBoundaryEntry \<Rightarrow> FragmentBoundaryEntry \<Rightarrow> bool" where
  "joined t a b =
     (fbe_token a = None \<and> fbe_token b = None
      \<and> fbe_linkedFragmentId a = Some (fbe_fragmentId b)
      \<and> fbe_linkedFragmentId b = Some (fbe_fragmentId a)
      \<and> get_timelineFragments t (fbe_fragmentId a) = Some (fragment a)
      \<and> (fbe_fragmentId b \<noteq> fbe_fragmentId a
           \<longrightarrow> get_timelineFragments t (fbe_fragmentId b) = Some (fragment b)))"

text \<open>The key reached from \<open>key\<close> by \<open>n\<close> steps of \<open>nextKeyForDirection\<close>.\<close>

definition keyAfter :: "EventKey \<Rightarrow> Direction \<Rightarrow> nat \<Rightarrow> EventKey" where
  "keyAfter key d n =
     EventKey (key_fragmentId key) (key_eventIndex key + (if isForward d then int n else - int n))"

text \<open>The loops are unfolded one step at a time in the proofs.\<close>

declare findMember_scan.simps [simp del]
declare findOverlappingEvents_loop.simps [simp del]
declare storeEvents_loop.simps [simp del]

section \<open>A small room, for concrete runs\<close>

definition demo_writer :: GapWriter where
  "demo_writer =
     \<lparr>writeGapRelation = (\<lambda>e d t. None),
      fromMemberEvent = (\<lambda>ev. Some (RoomMember (Some (content ev)) None)),
      fromReplacingMemberEvent = (\<lambda>ev. Some (RoomMember (prev_content ev) None)),
      middleStorageKey = 0\<rparr>"

definition demo_event :: "string \<Rightarrow> Event" where
  "demo_event i =
     \<lparr>event_id = i, sender = ''@alice:hs.tld'', type_ev = ''m.room.message'', state_key = None,
      content = ''hello'', prev_content = None\<rparr>"

definition demo_member_event :: "string \<Rightarrow> string \<Rightarrow> string option \<Rightarrow> Event" where
  "demo_member_event i name prev =
     \<lparr>event_id = i, sender = ''@alice:hs.tld'', type_ev = ''m.room.member'',
      state_key = Some ''@alice:hs.tld'', content = name, prev_content = prev\<rparr>"

definition demo_fragment :: Fragment where
  "demo_fragment =
     \<lparr>frag_id = 1, previousId = None, nextId = None, previousToken = Some ''p'',
      nextToken = Some ''n'', edgeReached = None\<rparr>"

definition demo_txn :: txn where
  "demo_txn =
     \<lparr>timelineEvents =
        [\<lparr>fragmentId = 1, eventIndex = 0, event = demo_event ''$e1'', displayName = None, avatarUrl = None\<rparr>,
         \<lparr>fragmentId = 1, eventIndex = 1, event = demo_event ''$e2'', displayName = None, avatarUrl = None\<rparr>],
      timelineFragments = [demo_fragment]\<rparr>"

definition demo_start :: FragmentBoundaryEntry where
  "demo_start = \<lparr>fragment = demo_fragment, isFragmentStart = True\<rparr>"

definition demo_messages :: "Event list \<Rightarrow> string \<Rightarrow> string \<Rightarrow> messages_response" where
  "demo_messages evs s e = \<lparr>chunk = Some evs, start_msg = Some s, end_msg = Some e, state_msg = None\<rparr>"

definition demo_context :: "Event \<Rightarrow> Event list \<Rightarrow> Event list \<Rightarrow> context_response" where
  "demo_context ev evs_before evs_after =
     \<lparr>event_ctx = ev, events_before = Some evs_before, events_after = Some evs_after,
      start_ctx = Some ''s'', end_ctx = Some ''e'', state_ctx = None\<rparr>"

text \<open>A second room state: fragment 1 with two events, linked to fragment 2, whose gap
  towards fragment 1 is still open.\<close>

definition demo_txn2 :: txn where
  "demo_txn2 =
     \<lparr>timelineEvents =
        [\<lparr>fragmentId = 1, eventIndex = 0, event = demo_event ''$e1'', displayName = None, avatarUrl = None\<rparr>,
         \<lparr>fragmentId = 1, eventIndex = 1, event = demo_event ''$e2'', displayName = None, avatarUrl = None\<rparr>,
         \<lparr>fragmentId = 2, eventIndex = 0, event = demo_event ''$e5'', displayName = None, avatarUrl = None\<rparr>],
      timelineFragments =
        [demo_fragment\<lparr>nextToken := None, nextId := Some 2\<rparr>,
         demo_fragment\<lparr>frag_id := 2, previousId := Some 1, previousToken := Some ''p2''\<rparr>]\<rparr>"

section \<open>Properties\<close>


subsection \<open>Boundary entries and the fragment store\<close>

lemma fbe_fragmentId_set_linked [simp]:
  "fbe_fragmentId (fbe_set_linkedFragmentId e i) = fbe_fragmentId e"
  by (simp add: fbe_set_linkedFragmentId_def fbe_fragmentId_def)

lemma fbe_fragmentId_set_token [simp]:
  "fbe_fragmentId (fbe_set_token e x) = fbe_fragmentId e"
  by (simp add: fbe_set_token_def fbe_fragmentId_def)

lemma frag_id_fragment: "frag_id (fragment e) = fbe_fragmentId e"
  by (simp add: fbe_fragmentId_def)

lemma isFragmentStart_set [simp]:
  "isFragmentStart (fbe_set_token e x) = isFragmentStart e"
  "isFragmentStart (fbe_set_linkedFragmentId e i) = isFragmentStart e"
  by (simp_all add: fbe_set_token_def fbe_set_linkedFragmentId_def)

lemma fbe_direction_set [simp]:
  "fbe_direction (fbe_set_token e x) = fbe_direction e"
  "fbe_direction (fbe_set_linkedFragmentId e i) = fbe_direction e"
  by (simp_all add: fbe_direction_def)

lemma fbe_token_set [simp]:
  "fbe_token (fbe_set_token e x) = x"
  "fbe_token (fbe_set_linkedFragmentId e i) = fbe_token e"
  by (simp_all add: fbe_token_def fbe_set_token_def fbe_set_linkedFragmentId_def)

lemma fbe_linked_set [simp]:
  "fbe_linkedFragmentId (fbe_set_linkedFragmentId e i) = i"
  "fbe_linkedFragmentId (fbe_set_token e x) = fbe_linkedFragmentId e"
  by (simp_all add: fbe_linkedFragmentId_def fbe_set_token_def fbe_set_linkedFragmentId_def)

lemma withUpdatedFragment_fragment [simp]: "withUpdatedFragment e (fragment e) = e"
  by (simp add: withUpdatedFragment_def)

lemma fbe_set_linked_same:
  "fbe_linkedFragmentId e = i \<Longrightarrow> fbe_set_linkedFragmentId e i = e"
  by (auto simp add: fbe_set_linkedFragmentId_def fbe_linkedFragmentId_def)

lemma find_replace_same_id:
  "frag_id f = k \<Longrightarrow>
   find (\<lambda>g. frag_id g = i) (map (\<lambda>g. if frag_id g = k then f else g) fs) =
     (if i = k then (if find (\<lambda>g. frag_id g = k) fs = None then None else Some f)
      else find (\<lambda>g. frag_id g = i) fs)"
  by (induction fs) auto

lemma find_in_append:
  "find P (xs @ ys) = (case find P xs of None \<Rightarrow> find P ys | Some x \<Rightarrow> Some x)"
  by (induction xs) auto

lemma replace_absent_id:
  "find (\<lambda>g. frag_id g = k) fs = None \<Longrightarrow> map (\<lambda>g. if frag_id g = k then f else g) fs = fs"
  by (induction fs) (auto split: if_splits)

lemma replace_twice:
  "frag_id f = k \<Longrightarrow>
   map (\<lambda>g. if frag_id g = k then f else g) (map (\<lambda>g. if frag_id g = k then f else g) fs)
     = map (\<lambda>g. if frag_id g = k then f else g) fs"
  by (induction fs) auto

lemma get_update_timelineFragments [simp]:
  "get_timelineFragments (update_timelineFragments t f) i =
     (if i = frag_id f then Some f else get_timelineFragments t i)"
proof (cases "find (\<lambda>g. frag_id g = frag_id f) (timelineFragments t) = None")
  case True
  then show ?thesis
    by (auto simp: get_timelineFragments_def update_timelineFragments_def find_in_append
          split: option.splits)
next
  case False
  then obtain y where y: "find (\<lambda>g. frag_id g = frag_id f) (timelineFragments t) = Some y"
    by auto
  show ?thesis
    by (simp add: get_timelineFragments_def update_timelineFragments_def find_replace_same_id y)
qed

lemma update_timelineFragments_twice [simp]:
  "update_timelineFragments (update_timelineFragments t f) f = update_timelineFragments t f"
proof (cases "find (\<lambda>g. frag_id g = frag_id f) (timelineFragments t) = None")
  case True
  then show ?thesis
    by (simp add: update_timelineFragments_def find_in_append replace_absent_id)
next
  case False
  then obtain y where y: "find (\<lambda>g. frag_id g = frag_id f) (timelineFragments t) = Some y"
    by auto
  have again: "find (\<lambda>g. frag_id g = frag_id f)
               (map (\<lambda>g. if frag_id g = frag_id f then f else g) (timelineFragments t)) = Some f"
    by (simp add: find_replace_same_id y)
  show ?thesis
    by (simp add: update_timelineFragments_def y again replace_twice)
qed

lemma timelineEvents_update_timelineFragments [simp]:
  "timelineEvents (update_timelineFragments t f) = timelineEvents t"
  by (simp add: update_timelineFragments_def)

subsection \<open>Linking\<close>

lemma updateFragments_conflict_first:
  "fbe_linkedFragmentId fe \<noteq> None \<Longrightarrow> fbe_linkedFragmentId fe \<noteq> Some (fbe_fragmentId ne)
   \<Longrightarrow> updateFragments fe (Some ne) end_token es t = (Inl (PreventedChangingLink (fbe_fragmentId fe)), t)"
  by (simp add: updateFragments_def fbe_hasLinkedFragment_def)

lemma updateFragments_conflict_second:
  "fbe_linkedFragmentId fe = None \<or> fbe_linkedFragmentId fe = Some (fbe_fragmentId ne) \<Longrightarrow>
   fbe_linkedFragmentId ne \<noteq> None \<Longrightarrow> fbe_linkedFragmentId ne \<noteq> Some (fbe_fragmentId fe)
   \<Longrightarrow> updateFragments fe (Some ne) end_token es t = (Inl (PreventedChangingLink (fbe_fragmentId ne)), t)"
  by (auto simp add: updateFragments_def fbe_hasLinkedFragment_def Let_def)

lemma updateFragments_link:
  assumes "fbe_linkedFragmentId fe = None \<or> fbe_linkedFragmentId fe = Some (fbe_fragmentId ne)"
      and "fbe_linkedFragmentId ne = None \<or> fbe_linkedFragmentId ne = Some (fbe_fragmentId fe)"
  shows "updateFragments fe (Some ne) end_token es t =
     (let fe2 = fbe_set_token (fbe_set_linkedFragmentId fe (Some (fbe_fragmentId ne))) None;
          ne2 = fbe_set_token (fbe_set_linkedFragmentId ne (Some (fbe_fragmentId fe))) None
      in (Inr ([fragment fe2, fragment ne2],
               directionalAppend (directionalAppend es (BoundaryEntry fe2) (fbe_direction fe))
                  (BoundaryEntry ne2) (fbe_direction fe)),
          update_timelineFragments (update_timelineFragments t (fragment ne2)) (fragment fe2)))"
  using assms
  by (auto simp add: updateFragments_def fbe_hasLinkedFragment_def Let_def fbe_set_linked_same)

lemma updateFragments_no_neighbour:
  "updateFragments fe None end_token es t =
     (Inr ([], directionalAppend es (BoundaryEntry (fbe_set_token fe end_token)) (fbe_direction fe)),
      update_timelineFragments t (fragment (fbe_set_token fe end_token)))"
  by (simp add: updateFragments_def Let_def)

text \<open>
  C4. When \<open>_updateFragments\<close> is given a neighbour entry: if each of the two entries has
  its link on the joining side unset or already equal to the other's fragment id, the call
  succeeds, both links name the other fragment, both joined-side tokens are null and the
  two fragments are persisted; if the link of \<open>fragmentEntry\<close>, or else that of the neighbour,
  is set to a different fragment id, the call fails with the link error and the transaction
  is left as it was, so the existing link is never overwritten.
\<close>

theorem updateFragments_sets_or_refuses_links:
  "((fbe_linkedFragmentId fe = None \<or> fbe_linkedFragmentId fe = Some (fbe_fragmentId ne))
      \<and> (fbe_linkedFragmentId ne = None \<or> fbe_linkedFragmentId ne = Some (fbe_fragmentId fe))
    \<longrightarrow> (\<exists>f n es' t'.
          updateFragments fe (Some ne) end_token es t = (Inr ([f, n], es'), t')
          \<and> fbe_linkedFragmentId (withUpdatedFragment fe f) = Some (fbe_fragmentId ne)
          \<and> fbe_linkedFragmentId (withUpdatedFragment ne n) = Some (fbe_fragmentId fe)
          \<and> fbe_token (withUpdatedFragment fe f) = None
          \<and> fbe_token (withUpdatedFragment ne n) = None
          \<and> get_timelineFragments t' (fbe_fragmentId fe) = Some f
          \<and> (fbe_fragmentId ne \<noteq> fbe_fragmentId fe \<longrightarrow> get_timelineFragments t' (fbe_fragmentId ne) = Some n)))
   \<and> (fbe_linkedFragmentId fe \<noteq> None \<and> fbe_linkedFragmentId fe \<noteq> Some (fbe_fragmentId ne)
        \<longrightarrow> updateFragments fe (Some ne) end_token es t = (Inl (PreventedChangingLink (fbe_fragmentId fe)), t))
   \<and> ((fbe_linkedFragmentId fe = None \<or> fbe_linkedFragmentId fe = Some (fbe_fragmentId ne))
        \<and> fbe_linkedFragmentId ne \<noteq> None \<and> fbe_linkedFragmentId ne \<noteq> Some (fbe_fragmentId fe)
        \<longrightarrow> updateFragments fe (Some ne) end_token es t = (Inl (PreventedChangingLink (fbe_fragmentId ne)), t))"
proof (intro conjI impI)
  assume ok: "(fbe_linkedFragmentId fe = None \<or> fbe_linkedFragmentId fe = Some (fbe_fragmentId ne))
      \<and> (fbe_linkedFragmentId ne = None \<or> fbe_linkedFragmentId ne = Some (fbe_fragmentId fe))"
  define fe2 where "fe2 = fbe_set_token (fbe_set_linkedFragmentId fe (Some (fbe_fragmentId ne))) None"
  define ne2 where "ne2 = fbe_set_token (fbe_set_linkedFragmentId ne (Some (fbe_fragmentId fe))) None"
  have wf: "withUpdatedFragment fe (fragment fe2) = fe2" "withUpdatedFragment ne (fragment ne2) = ne2"
    by (simp_all add: withUpdatedFragment_def fe2_def ne2_def)
  have run: "updateFragments fe (Some ne) end_token es t =
      (Inr ([fragment fe2, fragment ne2],
            directionalAppend (directionalAppend es (BoundaryEntry fe2) (fbe_direction fe))
               (BoundaryEntry ne2) (fbe_direction fe)),
       update_timelineFragments (update_timelineFragments t (fragment ne2)) (fragment fe2))"
    using ok updateFragments_link [of fe ne end_token es t] by (simp add: Let_def fe2_def ne2_def)
  show "\<exists>f n es' t'.
          updateFragments fe (Some ne) end_token es t = (Inr ([f, n], es'), t')
          \<and> fbe_linkedFragmentId (withUpdatedFragment fe f) = Some (fbe_fragmentId ne)
          \<and> fbe_linkedFragmentId (withUpdatedFragment ne n) = Some (fbe_fragmentId fe)
          \<and> fbe_token (withUpdatedFragment fe f) = None
          \<and> fbe_token (withUpdatedFragment ne n) = None
          \<and> get_timelineFragments t' (fbe_fragmentId fe) = Some f
          \<and> (fbe_fragmentId ne \<noteq> fbe_fragmentId fe \<longrightarrow> get_timelineFragments t' (fbe_fragmentId ne) = Some n)"
    apply (rule exI [of _ "fragment fe2"], rule exI [of _ "fragment ne2"])
    apply (rule exI, rule exI)
    apply (rule conjI, rule run)
    apply (simp add: wf frag_id_fragment)
    apply (simp add: fe2_def ne2_def)
    done
next
  assume "fbe_linkedFragmentId fe \<noteq> None \<and> fbe_linkedFragmentId fe \<noteq> Some (fbe_fragmentId ne)"
  then show "updateFragments fe (Some ne) end_token es t = (Inl (PreventedChangingLink (fbe_fragmentId fe)), t)"
    by (simp add: updateFragments_conflict_first)
next
  assume "(fbe_linkedFragmentId fe = None \<or> fbe_linkedFragmentId fe = Some (fbe_fragmentId ne))
        \<and> fbe_linkedFragmentId ne \<noteq> None \<and> fbe_linkedFragmentId ne \<noteq> Some (fbe_fragmentId fe)"
  then show "updateFragments fe (Some ne) end_token es t = (Inl (PreventedChangingLink (fbe_fragmentId ne)), t)"
    using updateFragments_conflict_second [of fe ne end_token es t] by blast
qed

lemmas demo_defs = demo_writer_def demo_event_def demo_member_event_def demo_fragment_def
  demo_txn_def demo_start_def demo_messages_def demo_context_def

lemmas fbe_defs = fbe_fragmentId_def fbe_direction_def fbe_token_def fbe_set_token_def
  fbe_linkedFragmentId_def fbe_set_linkedFragmentId_def fbe_hasLinkedFragment_def
  fbe_set_edgeReached_def withUpdatedFragment_def

theorem updateFragments_sets_or_refuses_links_witness:
  "(let fe = demo_start;
        ne = \<lparr>fragment = demo_fragment\<lparr>frag_id := 2\<rparr>, isFragmentStart = False\<rparr>
    in fbe_linkedFragmentId fe = None \<and> fbe_linkedFragmentId ne = None
       \<and> (\<exists>f n es' t'. updateFragments fe (Some ne) None [] demo_txn = (Inr ([f, n], es'), t')
            \<and> previousId f = Some 2 \<and> nextId n = Some 1 \<and> previousToken f = None \<and> nextToken n = None
            \<and> get_timelineFragments t' 1 = Some f \<and> get_timelineFragments t' 2 = Some n))
   \<and> (let fe = \<lparr>fragment = demo_fragment\<lparr>previousId := Some 7\<rparr>, isFragmentStart = True\<rparr>;
           ne = \<lparr>fragment = demo_fragment\<lparr>frag_id := 2\<rparr>, isFragmentStart = False\<rparr>
       in fbe_linkedFragmentId fe = Some 7 \<and> fbe_fragmentId ne = 2
          \<and> updateFragments fe (Some ne) None [] demo_txn = (Inl (PreventedChangingLink 1), demo_txn))
   \<and> (let fe = demo_start;
           ne = \<lparr>fragment = demo_fragment\<lparr>frag_id := 2, nextId := Some 7\<rparr>, isFragmentStart = False\<rparr>
       in fbe_linkedFragmentId fe = None \<and> fbe_linkedFragmentId ne = Some 7 \<and> fbe_fragmentId fe = 1
          \<and> updateFragments fe (Some ne) None [] demo_txn = (Inl (PreventedChangingLink 2), demo_txn))"
  using
    updateFragments_sets_or_refuses_links [of demo_start
      "\<lparr>fragment = demo_fragment\<lparr>frag_id := 2\<rparr>, isFragmentStart = False\<rparr>" None "[]" demo_txn]
    updateFragments_sets_or_refuses_links
      [of "\<lparr>fragment = demo_fragment\<lparr>previousId := Some 7\<rparr>, isFragmentStart = True\<rparr>"
          "\<lparr>fragment = demo_fragment\<lparr>frag_id := 2\<rparr>, isFragmentStart = False\<rparr>" None "[]" demo_txn]
    updateFragments_sets_or_refuses_links [of demo_start
      "\<lparr>fragment = demo_fragment\<lparr>frag_id := 2, nextId := Some 7\<rparr>, isFragmentStart = False\<rparr>" None "[]" demo_txn]
  by (auto simp add: Let_def demo_start_def demo_fragment_def fbe_defs)

text \<open>
  C3. \<open>writeFragmentFill\<close> reloads the fragment from storage; whenever the reloaded
  fragment's token on the fill side differs from \<open>response.start\<close> the call fails and the
  transaction is left as it was (with a well-formed chunk and end token the failure is the
  token error itself); a call that succeeds had the two equal.
\<close>

theorem writeFragmentFill_token_guard:
  "(get_timelineFragments t (fbe_fragmentId fe) = Some f
      \<and> fbe_token (withUpdatedFragment fe f) \<noteq> start_msg response
      \<longrightarrow> (\<exists>err. writeFragmentFill this fe response t = (Inl err, t))
        \<and> (chunk response \<noteq> None \<and> end_msg response \<noteq> None
             \<longrightarrow> writeFragmentFill this fe response t = (Inl StartNotEqualToken, t)))
   \<and> (\<forall>r t'. writeFragmentFill this fe response t = (Inr r, t')
        \<longrightarrow> (\<exists>g. get_timelineFragments t (fbe_fragmentId fe) = Some g
               \<and> fbe_token (withUpdatedFragment fe g) = start_msg response))"
  by (auto simp: writeFragmentFill_def Let_def split: option.splits if_splits)

theorem writeFragmentFill_token_guard_witness:
  "get_timelineFragments demo_txn (fbe_fragmentId demo_start) = Some demo_fragment
   \<and> fbe_token (withUpdatedFragment demo_start demo_fragment) \<noteq> start_msg (demo_messages [demo_event ''$e0''] ''stale'' ''q'')
   \<and> writeFragmentFill demo_writer demo_start (demo_messages [demo_event ''$e0''] ''stale'' ''q'') demo_txn
       = (Inl StartNotEqualToken, demo_txn)"
  using writeFragmentFill_token_guard [of demo_txn demo_start demo_fragment
          "demo_messages [demo_event ''$e0''] ''stale'' ''q''" demo_writer]
  by (simp add: demo_txn_def demo_start_def demo_fragment_def demo_messages_def fbe_defs
        get_timelineFragments_def)

text \<open>
  C7. With a well-formed response whose chunk is empty, and the token guard passed,
  \<open>writeFragmentFill\<close> sets \<open>edgeReached\<close> on the reloaded fragment, persists it, and returns
  that one boundary entry with no updated entries and no changed fragments; no event is
  stored, no link field is touched and no other fragment changes.
\<close>

theorem writeFragmentFill_empty_chunk:
  assumes "chunk response = Some []"
      and "end_msg response = Some e"
      and "get_timelineFragments t (fbe_fragmentId fe) = Some f"
      and "fbe_token (withUpdatedFragment fe f) = start_msg response"
  shows "writeFragmentFill this fe response t =
           (Inr \<lparr>entries = [BoundaryEntry \<lparr>fragment = f\<lparr>edgeReached := Some True\<rparr>,
                                            isFragmentStart = isFragmentStart fe\<rparr>],
                 updatedEntries = [], fragments = [], contextEvent = None\<rparr>,
            update_timelineFragments t (f\<lparr>edgeReached := Some True\<rparr>))
         \<and> timelineEvents (snd (writeFragmentFill this fe response t)) = timelineEvents t
         \<and> (\<forall>i. i \<noteq> frag_id f \<longrightarrow>
               get_timelineFragments (snd (writeFragmentFill this fe response t)) i = get_timelineFragments t i)"
  using assms
  by (simp add: writeFragmentFill_def Let_def fbe_set_edgeReached_def withUpdatedFragment_def)

theorem writeFragmentFill_empty_chunk_witness:
  "chunk (demo_messages [] ''p'' ''q'') = Some []
   \<and> fbe_token (withUpdatedFragment demo_start demo_fragment) = start_msg (demo_messages [] ''p'' ''q'')
   \<and> writeFragmentFill demo_writer demo_start (demo_messages [] ''p'' ''q'') demo_txn =
       (Inr \<lparr>entries = [BoundaryEntry \<lparr>fragment = demo_fragment\<lparr>edgeReached := Some True\<rparr>,
                                        isFragmentStart = True\<rparr>],
             updatedEntries = [], fragments = [], contextEvent = None\<rparr>,
        demo_txn\<lparr>timelineFragments := [demo_fragment\<lparr>edgeReached := Some True\<rparr>]\<rparr>)"
  using writeFragmentFill_empty_chunk [of "demo_messages [] ''p'' ''q''" "''q''" demo_txn demo_start
          demo_fragment demo_writer]
  by (simp add: demo_txn_def demo_start_def demo_fragment_def demo_messages_def fbe_defs
        get_timelineFragments_def update_timelineFragments_def)

text \<open>
  C9. With a well-formed /context response whose central event is already stored,
  \<open>writeContext\<close> returns early: the existing entry as \<open>contextEvent\<close>, no entries, no
  updated entries, no fragments, and the transaction exactly as it was.
\<close>

theorem writeContext_known_event_returns_early:
  assumes "events_before response = Some b"
      and "events_after response = Some a"
      and "truthy (start_ctx response)"
      and "truthy (end_ctx response)"
      and "getByEventId t (event_id (event_ctx response)) = Some existing"
  shows "writeContext this response t =
           (Inr \<lparr>entries = [], updatedEntries = [], fragments = [],
                 contextEvent = Some (EventEntry existing)\<rparr>, t)"
  using assms by (simp add: writeContext_def)

theorem writeContext_known_event_returns_early_witness:
  "getByEventId demo_txn (event_id (event_ctx (demo_context (demo_event ''$e2'') [] []))) =
      Some \<lparr>fragmentId = 1, eventIndex = 1, event = demo_event ''$e2'', displayName = None, avatarUrl = None\<rparr>
   \<and> writeContext demo_writer (demo_context (demo_event ''$e2'') [] []) demo_txn =
       (Inr \<lparr>entries = [], updatedEntries = [], fragments = [],
             contextEvent = Some (EventEntry \<lparr>fragmentId = 1, eventIndex = 1, event = demo_event ''$e2'',
                                              displayName = None, avatarUrl = None\<rparr>)\<rparr>, demo_txn)"
  using writeContext_known_event_returns_early [of "demo_context (demo_event ''$e2'') [] []" "[]" "[]"
          demo_txn "\<lparr>fragmentId = 1, eventIndex = 1, event = demo_event ''$e2'', displayName = None, avatarUrl = None\<rparr>"
          demo_writer]
  by (simp add: demo_txn_def demo_context_def demo_event_def getByEventId_def truthy_def)

subsection \<open>The two scans of sender resolution\<close>

lemma findMember_scan_outside:
  "i < 0 \<or> int (length events) \<le> i \<Longrightarrow> findMember_scan p events i asc = None"
  by (subst findMember_scan.simps) auto

lemma findMember_scan_inside:
  "0 \<le> i \<Longrightarrow> i < int (length events) \<Longrightarrow>
   findMember_scan p events i asc =
     (if p (events ! nat i) then Some (events ! nat i)
      else findMember_scan p events (if asc then i + 1 else i - 1) asc)"
  by (subst findMember_scan.simps) (simp add: Let_def)

lemma findMember_scan_ascending:
  "asc \<Longrightarrow> 0 \<le> i \<Longrightarrow> findMember_scan p events i asc = find p (drop (nat i) events)"
proof (induction p events i asc rule: findMember_scan.induct)
  case (1 p events i asc)
  show ?case
  proof (cases "i < int (length events)")
    case False
    then show ?thesis by (simp add: findMember_scan_outside)
  next
    case True
    have n: "nat (i + 1) = Suc (nat i)" using "1.prems" by arith
    have d: "drop (nat i) events = events ! nat i # drop (Suc (nat i)) events"
      using True "1.prems" by (simp add: Cons_nth_drop_Suc)
    show ?thesis
    proof (cases "p (events ! nat i)")
      case True
      then show ?thesis using \<open>i < int (length events)\<close> "1.prems" d
        by (simp add: findMember_scan_inside)
    next
      case False
      then have "findMember_scan p events (i + 1) asc = find p (drop (nat (i + 1)) events)"
        using "1.IH" [of "events ! nat i"] "1.prems" True by simp
      then show ?thesis using False True "1.prems" d n
        by (simp add: findMember_scan_inside)
    qed
  qed
qed

lemma findMember_scan_descending:
  "\<not> asc \<Longrightarrow> i < int (length events) \<Longrightarrow>
   findMember_scan p events i asc = find p (rev (take (nat (i + 1)) events))"
proof (induction p events i asc rule: findMember_scan.induct)
  case (1 p events i asc)
  show ?case
  proof (cases "0 \<le> i")
    case False
    then have "nat (i + 1) = 0" by arith
    then show ?thesis using False by (simp add: findMember_scan_outside)
  next
    case True
    have n: "nat (i + 1) = Suc (nat i)" using True by arith
    have t: "take (Suc (nat i)) events = take (nat i) events @ [events ! nat i]"
      using True "1.prems" by (simp add: take_Suc_conv_app_nth)
    show ?thesis
    proof (cases "p (events ! nat i)")
      case True
      then show ?thesis using \<open>0 \<le> i\<close> "1.prems" t n
        by (simp add: findMember_scan_inside)
    next
      case False
      then have "findMember_scan p events (i - 1) asc = find p (rev (take (nat (i - 1 + 1)) events))"
        using "1.IH" [of "events ! nat i"] "1.prems" True by simp
      then show ?thesis using False True "1.prems" t n
        by (simp add: findMember_scan_inside)
    qed
  qed
qed

lemma findMember_from_own_index:
  assumes "index < length events"
  shows "findMember this userId state events (int index) direction
           = senderResolution_fromOwnIndex this userId state events index direction"
proof (cases direction)
  case Forward
  have a: "nat (int index - 1 + 1) = index" by simp
  have "findMember_scan (isOurUser userId) events (int index - 1) False
          = find (isOurUser userId) (rev (take index events))"
    using findMember_scan_descending [of False "int index - 1" events "isOurUser userId"] assms a
    by simp
  moreover have "findMember_scan (isOurUser userId) events (int index) True
          = find (isOurUser userId) (events ! index # drop (Suc index) events)"
    using findMember_scan_ascending [of True "int index" "isOurUser userId" events] assms
    by (simp add: Cons_nth_drop_Suc)
  ultimately show ?thesis using Forward
    by (simp add: findMember_def senderResolution_fromOwnIndex_def spec_olderEvents_def
          spec_newerEvents_def isBackward_def cong: option.case_cong)
next
  case Backward
  have a: "nat (int index + 1) = Suc index" by simp
  have "findMember_scan (isOurUser userId) events (int index + 1) True
          = find (isOurUser userId) (drop (Suc index) events)"
    using findMember_scan_ascending [of True "int index + 1" "isOurUser userId" events] a
    by simp
  moreover have "findMember_scan (isOurUser userId) events (int index) False
          = find (isOurUser userId) (events ! index # rev (take index events))"
    using findMember_scan_descending [of False "int index" events "isOurUser userId"] assms a
    by (simp add: take_Suc_conv_app_nth)
  ultimately show ?thesis using Backward
    by (simp add: findMember_def senderResolution_fromOwnIndex_def spec_olderEvents_def
          spec_newerEvents_def isBackward_def cong: option.case_cong)
qed

lemma keyAfter_next: "keyAfter (nextKeyForDirection key d) d n = keyAfter key d (Suc n)"
  by (simp add: keyAfter_def nextKeyForDirection_def)

lemma keyAfter_one: "keyAfter key d (Suc 0) = nextKeyForDirection key d"
  by (simp add: keyAfter_def nextKeyForDirection_def)

lemma stampedEntry_fields [simp]:
  "event (stampedEntry this events st d key i) = events ! i"
  "fragmentId (stampedEntry this events st d key i) = key_fragmentId key"
  "eventIndex (stampedEntry this events st d key i) = key_eventIndex key"
  by (simp_all add: stampedEntry_def createEventEntry_def Let_def split: option.splits)

lemma stampedEntry_member:
  "displayName (stampedEntry this events st d key i) =
     (case findMember this (sender (events ! i)) st events (int i) d of
        Some m \<Rightarrow> member_displayName m | None \<Rightarrow> None)"
  "avatarUrl (stampedEntry this events st d key i) =
     (case findMember this (sender (events ! i)) st events (int i) d of
        Some m \<Rightarrow> member_avatarUrl m | None \<Rightarrow> None)"
  by (simp_all add: stampedEntry_def createEventEntry_def Let_def split: option.splits)

lemma storeEvents_loop_inserts:
  "timelineEvents (snd (storeEvents_loop this events d st i key es us t)) =
     timelineEvents t @ map (\<lambda>j. stampedEntry this events st d (keyAfter key d (Suc j - i)) j) [i..<length events]"
proof (induction this events d st i key es us t rule: storeEvents_loop.induct)
  case (1 this events d st i key es us t)
  show ?case
  proof (cases "i < length events")
    case False
    then show ?thesis by (subst storeEvents_loop.simps) simp
  next
    case True
    define key1 where "key1 = nextKeyForDirection key d"
    define se where "se = stampedEntry this events st d key1 i"
    define us1 where "us1 = (case writeGapRelation this se d t of Some u \<Rightarrow> us @ u | None \<Rightarrow> us)"
    define t1 where "t1 = insert_timelineEvents t se"
    define es1 where "es1 = directionalAppend es (EventEntry se) d"
    have unfold: "storeEvents_loop this events d st i key es us t =
                  storeEvents_loop this events d st (i + 1) key1 es1 us1 t1"
      using True by (subst storeEvents_loop.simps) (simp add: Let_def key1_def se_def us1_def t1_def es1_def)
    have ih: "timelineEvents (snd (storeEvents_loop this events d st (i + 1) key1 es1 us1 t1)) =
        timelineEvents t1 @ map (\<lambda>j. stampedEntry this events st d (keyAfter key1 d (Suc j - (i + 1))) j) [i + 1..<length events]"
      using "1.IH" [OF True key1_def se_def us1_def t1_def es1_def] .
    have keys: "map (\<lambda>j. stampedEntry this events st d (keyAfter key1 d (Suc j - (i + 1))) j) [i + 1..<length events]
              = map (\<lambda>j. stampedEntry this events st d (keyAfter key d (Suc j - i)) j) [i + 1..<length events]"
      by (rule map_cong) (auto simp: key1_def keyAfter_next Suc_diff_le)
    have up: "[i..<length events] = i # [i + 1..<length events]"
      using True by (simp add: upt_conv_Cons)
    show ?thesis
      unfolding unfold ih keys up
      by (simp add: t1_def se_def key1_def insert_timelineEvents_def keyAfter_one)
  qed
qed

lemma storeEvents_loop_fragments:
  "timelineFragments (snd (storeEvents_loop this events d st i key es us t)) = timelineFragments t"
proof (induction this events d st i key es us t rule: storeEvents_loop.induct)
  case (1 this events d st i key es us t)
  show ?case
  proof (cases "i < length events")
    case False
    then show ?thesis by (subst storeEvents_loop.simps) simp
  next
    case True
    then show ?thesis
      using "1.IH" [OF True refl refl refl refl refl]
      by (subst storeEvents_loop.simps) (simp add: Let_def insert_timelineEvents_def)
  qed
qed

text \<open>
  C8, as amended. For the event at \<open>index\<close> of a chunk, \<open>_findMember\<close> first takes the
  nearest chronologically older member event of the user in the chunk (higher indices for
  Backward, lower for Forward) and gives the member from its content; only if there is
  none, it scans from the event itself towards the newer events of the chunk (the event at
  \<open>index\<close> first, then the newer ones, nearest first) and gives the replacing member from
  the previous content of the first member event of the user; only if both scans fail, the
  first member event of the user in the state list gives the member; otherwise nothing.
  The entry that \<open>_storeEvents\<close> inserts for that event carries the display name and avatar
  of the member found, and none when nothing is found.
\<close>

theorem findMember_scans_older_then_own_and_newer_then_state:
  assumes "index < length events"
  shows "findMember this userId state events (int index) direction
           = senderResolution_fromOwnIndex this userId state events index direction
         \<and> (let stored = timelineEvents (snd (storeEvents this events startKey direction state t))
                           ! (length (timelineEvents t) + index)
            in event stored = events ! index
               \<and> (case senderResolution_fromOwnIndex this (sender (events ! index)) state events index direction of
                     Some member \<Rightarrow> displayName stored = member_displayName member
                                     \<and> avatarUrl stored = member_avatarUrl member
                   | None \<Rightarrow> displayName stored = None \<and> avatarUrl stored = None))"
proof -
  have "timelineEvents (snd (storeEvents this events startKey direction state t)) ! (length (timelineEvents t) + index)
        = stampedEntry this events state direction (keyAfter startKey direction (Suc index)) index"
    using assms by (simp add: storeEvents_def storeEvents_loop_inserts nth_append)
  then show ?thesis
    using assms findMember_from_own_index [of index events this _ state direction]
    by (simp add: Let_def stampedEntry_member split: option.splits)
qed

text \<open>
  C8 as stated fails: for a chunk that holds only the sender's own membership event, with
  a membership event of the sender in the state list, scanning the newer events finds
  nothing and the specification's resolution takes the member from the state list, while
  \<open>_findMember\<close> returns the replacing member built from the event itself and does not
  consult the state list.
\<close>

theorem findMember_own_event_before_state:
  "findMember demo_writer ''@alice:hs.tld''
      (Some [demo_member_event ''$s'' ''Alice'' None])
      [demo_member_event ''$j'' ''Al'' (Some ''Old'')] (int 0) Forward
     = Some (RoomMember (Some ''Old'') None)
   \<and> spec_senderResolution demo_writer ''@alice:hs.tld''
      (Some [demo_member_event ''$s'' ''Alice'' None])
      [demo_member_event ''$j'' ''Al'' (Some ''Old'')] 0 Forward
     = Some (RoomMember (Some ''Alice'') None)
   \<and> findMember demo_writer ''@alice:hs.tld''
      (Some [demo_member_event ''$s'' ''Alice'' None])
      [demo_member_event ''$j'' ''Al'' (Some ''Old'')] (int 0) Forward
     \<noteq> spec_senderResolution demo_writer ''@alice:hs.tld''
      (Some [demo_member_event ''$s'' ''Alice'' None])
      [demo_member_event ''$j'' ''Al'' (Some ''Old'')] 0 Forward"
  by code_simp

text \<open>
  C10. The second scan of \<open>_findMember\<close> starts at the event's own index: when
  \<open>events[index]\<close> is itself a membership event whose state key is its own sender and no
  chronologically older event of the chunk is a membership event of that user, the result
  is the replacing member built from \<open>events[index]\<close> itself; the state list is not consulted.
\<close>

theorem findMember_own_member_event_replaces:
  assumes "index < length events"
      and "type_ev (events ! index) = MEMBER_EVENT_TYPE"
      and "state_key (events ! index) = Some (sender (events ! index))"
      and "\<forall>j<length events. (if isBackward direction then index < j else j < index)
              \<longrightarrow> \<not> isOurUser (sender (events ! index)) (events ! j)"
  shows "findMember this (sender (events ! index)) state events (int index) direction
           = fromReplacingMemberEvent this (events ! index)"
proof -
  let ?p = "isOurUser (sender (events ! index))"
  have own: "?p (events ! index)" using assms(2,3) by (simp add: isOurUser_def)
  have older: "find ?p (spec_olderEvents direction events index) = None"
  proof (cases direction)
    case Forward
    then show ?thesis using assms(1,4)
      by (auto simp: spec_olderEvents_def find_None_iff isBackward_def in_set_conv_nth)
  next
    case Backward
    then show ?thesis using assms(1,4)
      by (auto simp: spec_olderEvents_def find_None_iff isBackward_def in_set_conv_nth)
  qed
  have own_first: "find ?p (events ! index # spec_newerEvents direction events index)
                     = Some (events ! index)"
    using own by simp
  show ?thesis
    using findMember_from_own_index [OF assms(1), of this "sender (events ! index)" state direction]
      older own_first
    by (simp add: senderResolution_fromOwnIndex_def)
qed

theorem findMember_scans_older_then_own_and_newer_then_state_witness:
  "(0::nat) < length [demo_event ''$m1'', demo_member_event ''$m2'' ''Alice'' (Some ''Al'')]
   \<and> findMember demo_writer ''@alice:hs.tld'' None
        [demo_event ''$m1'', demo_member_event ''$m2'' ''Alice'' (Some ''Al'')] (int 0) Backward
       = Some (RoomMember (Some ''Alice'') None)
   \<and> displayName (timelineEvents (snd (storeEvents demo_writer
          [demo_event ''$m1'', demo_member_event ''$m2'' ''Alice'' (Some ''Al'')]
          (EventKey 1 0) Backward None demo_txn)) ! (length (timelineEvents demo_txn) + 0))
       = Some ''Alice''
   \<and> (0::nat) < length [demo_member_event ''$j'' ''Al'' (Some ''Old'')]
   \<and> findMember demo_writer ''@alice:hs.tld'' (Some [demo_member_event ''$s'' ''Alice'' None])
        [demo_member_event ''$j'' ''Al'' (Some ''Old'')] (int 0) Forward
       = Some (RoomMember (Some ''Old'') None)"
  using findMember_scans_older_then_own_and_newer_then_state
    [of 0 "[demo_event ''$m1'', demo_member_event ''$m2'' ''Alice'' (Some ''Al'')]"
        demo_writer "''@alice:hs.tld''" None Backward "EventKey 1 0" demo_txn]
    findMember_scans_older_then_own_and_newer_then_state
    [of 0 "[demo_member_event ''$j'' ''Al'' (Some ''Old'')]"
        demo_writer "''@alice:hs.tld''" "Some [demo_member_event ''$s'' ''Alice'' None]" Forward
        "EventKey 1 0" demo_txn]
  by (simp add: senderResolution_fromOwnIndex_def spec_olderEvents_def spec_newerEvents_def isOurUser_def
        MEMBER_EVENT_TYPE_def demo_writer_def demo_event_def demo_member_event_def Let_def)

theorem findMember_own_member_event_replaces_witness:
  "(0::nat) < length [demo_member_event ''$m2'' ''Alice'' (Some ''Al''), demo_event ''$m3'']
   \<and> findMember demo_writer ''@alice:hs.tld'' None
        [demo_member_event ''$m2'' ''Alice'' (Some ''Al''), demo_event ''$m3''] (int 0) Forward
       = Some (RoomMember (Some ''Al'') None)"
  using findMember_own_member_event_replaces
    [of 0 "[demo_member_event ''$m2'' ''Alice'' (Some ''Al''), demo_event ''$m3'']" Forward demo_writer None]
  by (simp add: isOurUser_def MEMBER_EVENT_TYPE_def demo_writer_def demo_event_def
        demo_member_event_def isBackward_def)

subsection \<open>The overlap loop\<close>

lemma first_occurring_splits:
  "find P (map f xs) = Some d \<Longrightarrow>
   \<exists>i. findIndex (\<lambda>e. Some (f e) = Some d) xs = Some i \<and> i < length xs \<and> f (xs ! i) = d \<and> P d
       \<and> filter (\<lambda>e. \<not> P (f e)) xs = take i xs @ filter (\<lambda>e. \<not> P (f e)) (drop (Suc i) xs)"
proof (induction xs)
  case Nil
  then show ?case by simp
next
  case (Cons x xs)
  show ?case
  proof (cases "P (f x)")
    case True
    then show ?thesis using Cons.prems by auto
  next
    case False
    then have "find P (map f xs) = Some d" using Cons.prems by simp
    from Cons.IH [OF this] obtain i where
      i: "findIndex (\<lambda>e. Some (f e) = Some d) xs = Some i" "i < length xs" "f (xs ! i) = d" "P d"
         "filter (\<lambda>e. \<not> P (f e)) xs = take i xs @ filter (\<lambda>e. \<not> P (f e)) (drop (Suc i) xs)"
      by blast
    have "f x \<noteq> d" using False i(4) by auto
    then have "findIndex (\<lambda>e. Some (f e) = Some d) (x # xs) = Some (Suc i)" using i(1) by simp
    moreover have "filter (\<lambda>e. \<not> P (f e)) (x # xs)
        = take (Suc i) (x # xs) @ filter (\<lambda>e. \<not> P (f e)) (drop (Suc (Suc i)) (x # xs))"
      using False i(5) by simp
    ultimately show ?thesis using i(2,3,4) by auto
  qed
qed

lemma first_occurring_none:
  "findFirstOccurringEventId t (map event_id xs) = None \<Longrightarrow> filter (\<lambda>e. \<not> onDisk t e) xs = xs"
  by (auto simp: findFirstOccurringEventId_def find_None_iff onDisk_def filter_id_conv)

lemma first_occurring_some:
  assumes "findFirstOccurringEventId t (map event_id xs) = Some d"
  shows "\<exists>i. findIndex (\<lambda>e. Some (event_id e) = Some d) xs = Some i \<and> i < length xs
             \<and> event_id (xs ! i) = d \<and> getByEventId t d \<noteq> None
             \<and> filter (\<lambda>e. \<not> onDisk t e) xs = take i xs @ filter (\<lambda>e. \<not> onDisk t e) (drop (Suc i) xs)"
  using first_occurring_splits [of "\<lambda>i. getByEventId t i \<noteq> None" event_id xs d] assms
  by (simp add: findFirstOccurringEventId_def onDisk_def)

lemma findOverlappingEvents_loop_filters:
  "getByEventId t [] = None \<Longrightarrow>
   findOverlappingEvents_loop t ex d remaining acc n = Inr r \<Longrightarrow>
   nonOverlappingEvents r = acc @ filter (\<lambda>e. \<not> onDisk t e) remaining"
proof (induction t ex d remaining acc n rule: findOverlappingEvents_loop.induct)
  case (1 t ex d remaining acc n)
  show ?case
  proof (cases "remaining = []")
    case True
    then show ?thesis using "1.prems"(2) by (subst (asm) findOverlappingEvents_loop.simps) auto
  next
    case ne: False
    show ?thesis
    proof (cases "findFirstOccurringEventId t (map event_id remaining)")
      case None
      then have "r = \<lparr>nonOverlappingEvents = acc @ remaining, neighbourFragmentEntry = n\<rparr>"
        using "1.prems"(2) ne
        by (subst (asm) findOverlappingEvents_loop.simps) (simp add: Let_def truthy_def)
      then show ?thesis using first_occurring_none [OF None] by simp
    next
      case (Some dup)
      from first_occurring_some [OF Some] obtain i where
        i: "findIndex (\<lambda>e. Some (event_id e) = Some dup) remaining = Some i" "i < length remaining"
           "event_id (remaining ! i) = dup" "getByEventId t dup \<noteq> None"
           "filter (\<lambda>e. \<not> onDisk t e) remaining = take i remaining @ filter (\<lambda>e. \<not> onDisk t e) (drop (Suc i) remaining)"
        by blast
      have tr: "truthy (Some dup)" using i(4) "1.prems"(1) by (auto simp: truthy_def)
      define nb where "nb = (if (\<not> truthy ex \<or> Some dup = ex) \<and> n = None
                           then map_sum id Some (lookupNeighbour t d (the (Some dup)))
                           else Inr n)"
      have unfold: "findOverlappingEvents_loop t ex d remaining acc n =
            (case nb of Inl err \<Rightarrow> Inl err
             | Inr n1 \<Rightarrow> findOverlappingEvents_loop t ex d (drop (i + 1) remaining) (acc @ take i remaining) n1)"
        using ne Some tr i(1)
        by (subst findOverlappingEvents_loop.simps) (simp add: Let_def nb_def)
      then obtain n1 where n1: "nb = Inr n1"
        and rec: "findOverlappingEvents_loop t ex d (drop (i + 1) remaining) (acc @ take i remaining) n1 = Inr r"
        using "1.prems"(2) by (cases nb) auto
      have tr': "truthy (findFirstOccurringEventId t (map event_id remaining))"
        using Some tr by simp
      have fi': "findIndex (\<lambda>e. Some (event_id e) = findFirstOccurringEventId t (map event_id remaining))
                   remaining = Some i"
        using i(1) Some by simp
      have nb': "(if (\<not> truthy ex \<or> findFirstOccurringEventId t (map event_id remaining) = ex) \<and> n = None
                  then map_sum id Some (lookupNeighbour t d (the (findFirstOccurringEventId t (map event_id remaining))))
                  else Inr n) = Inr n1"
        unfolding Some using n1 [unfolded nb_def] .
      have "nonOverlappingEvents r = (acc @ take i remaining) @ filter (\<lambda>e. \<not> onDisk t e) (drop (i + 1) remaining)"
        using "1.IH" [OF ne refl refl tr' fi' refl nb' "1.prems"(1) rec] .
      then show ?thesis using i(5) by simp
    qed
  qed
qed

lemma lookupNeighbour_consistent:
  assumes "\<forall>se\<in>set (timelineEvents t). get_timelineFragments t (fragmentId se) \<noteq> None"
      and "getByEventId t dup \<noteq> None"
  shows "\<exists>b. lookupNeighbour t d dup = Inr b"
proof -
  from assms(2) obtain se where se: "getByEventId t dup = Some se" by auto
  then have "se \<in> set (timelineEvents t)"
    by (auto simp: getByEventId_def find_Some_iff)
  then obtain f where "get_timelineFragments t (fragmentId se) = Some f" using assms(1) by auto
  then show ?thesis using se by (simp add: lookupNeighbour_def)
qed

lemma findOverlappingEvents_loop_returns:
  "\<forall>se\<in>set (timelineEvents t). get_timelineFragments t (fragmentId se) \<noteq> None \<Longrightarrow>
   \<exists>r. findOverlappingEvents_loop t ex d remaining acc n = Inr r"
proof (induction t ex d remaining acc n rule: findOverlappingEvents_loop.induct)
  case (1 t ex d remaining acc n)
  show ?case
  proof (cases "remaining = []")
    case True
    then show ?thesis by (subst findOverlappingEvents_loop.simps) auto
  next
    case ne: False
    show ?thesis
    proof (cases "truthy (findFirstOccurringEventId t (map event_id remaining))")
      case False
      then show ?thesis using ne by (subst findOverlappingEvents_loop.simps) (simp add: Let_def)
    next
      case tr: True
      then obtain dup where Some: "findFirstOccurringEventId t (map event_id remaining) = Some dup"
        by (auto simp: truthy_def split: option.splits)
      from first_occurring_some [OF Some] obtain i where
        i: "findIndex (\<lambda>e. Some (event_id e) = Some dup) remaining = Some i"
           "getByEventId t dup \<noteq> None"
        by blast
      define nb where "nb = (if (\<not> truthy ex \<or> Some dup = ex) \<and> n = None
                           then map_sum id Some (lookupNeighbour t d (the (Some dup)))
                           else Inr n)"
      have unfold: "findOverlappingEvents_loop t ex d remaining acc n =
            (case nb of Inl err \<Rightarrow> Inl err
             | Inr n1 \<Rightarrow> findOverlappingEvents_loop t ex d (drop (i + 1) remaining) (acc @ take i remaining) n1)"
        using ne Some tr i(1)
        by (subst findOverlappingEvents_loop.simps) (simp add: Let_def nb_def)
      have "\<exists>n1. nb = Inr n1"
        using lookupNeighbour_consistent [OF "1.prems" i(2), of d]
        by (cases "(\<not> truthy ex \<or> Some dup = ex) \<and> n = None") (auto simp: nb_def)
      then obtain n1 where n1: "nb = Inr n1" by blast
      have tr': "truthy (findFirstOccurringEventId t (map event_id remaining))"
        using Some tr by simp
      have fi': "findIndex (\<lambda>e. Some (event_id e) = findFirstOccurringEventId t (map event_id remaining))
                   remaining = Some i"
        using i(1) Some by simp
      have nb': "(if (\<not> truthy ex \<or> findFirstOccurringEventId t (map event_id remaining) = ex) \<and> n = None
                  then map_sum id Some (lookupNeighbour t d (the (findFirstOccurringEventId t (map event_id remaining))))
                  else Inr n) = Inr n1"
        unfolding Some using n1 [unfolded nb_def] .
      have "\<exists>r. findOverlappingEvents_loop t ex d (drop (i + 1) remaining) (acc @ take i remaining) n1 = Inr r"
        using "1.IH" [OF ne refl refl tr' fi' refl nb' "1.prems"] .
      then show ?thesis using unfold n1 by simp
    qed
  qed
qed

lemma findOverlappingEventsFor_cases:
  "findOverlappingEventsFor t cur linked d events = Inr r \<Longrightarrow>
   \<exists>r0. findOverlappingEvents_loop t
           (case linked of Some l \<Rightarrow> findExpectedOverlappingEventId t l d | None \<Rightarrow> None)
           d events [] None = Inr r0
        \<and> nonOverlappingEvents r = nonOverlappingEvents r0
        \<and> (neighbourFragmentEntry r = neighbourFragmentEntry r0 \<or> neighbourFragmentEntry r = None)
        \<and> (\<forall>b. neighbourFragmentEntry r = Some b \<longrightarrow> Some (fbe_fragmentId b) \<noteq> cur)"
  by (auto simp: findOverlappingEventsFor_def Let_def split: sum.splits option.splits if_splits)

lemma findOverlappingEventsFor_returns:
  "findOverlappingEvents_loop t
      (case linked of Some l \<Rightarrow> findExpectedOverlappingEventId t l d | None \<Rightarrow> None)
      d events [] None = Inr r0 \<Longrightarrow>
   \<exists>r. findOverlappingEventsFor t cur linked d events = Inr r"
  by (simp add: findOverlappingEventsFor_def Let_def split: option.splits)

text \<open>
  C6. For every chunk, whatever the current and the linked fragment (and so whether or not
  a duplicate is the expected overlapping event): each time the detector finds a duplicate
  at index \<open>i\<close> of the remaining events it appends the \<open>i\<close> events before it and goes on
  after it, so the \<open>nonOverlappingEvents\<close> it returns are exactly the events of the chunk
  that are not on disk, in the order of the chunk. The store is taken not to hold an event
  with the empty id, which \<open>if (duplicateEventId)\<close> would not recognise as found. The
  detector does return when every stored event belongs to a stored fragment.
\<close>

theorem findOverlappingEventsFor_drops_duplicates:
  assumes "getByEventId t [] = None"
  shows "(\<forall>r. findOverlappingEventsFor t cur linked d events = Inr r
            \<longrightarrow> nonOverlappingEvents r = filter (\<lambda>e. \<not> onDisk t e) events)
         \<and> ((\<forall>se\<in>set (timelineEvents t). get_timelineFragments t (fragmentId se) \<noteq> None)
            \<longrightarrow> (\<exists>r. findOverlappingEventsFor t cur linked d events = Inr r))"
proof (intro conjI allI impI)
  fix r
  assume "findOverlappingEventsFor t cur linked d events = Inr r"
  from findOverlappingEventsFor_cases [OF this] obtain r0 where
    r0: "findOverlappingEvents_loop t
       (case linked of Some l \<Rightarrow> findExpectedOverlappingEventId t l d | None \<Rightarrow> None)
       d events [] None = Inr r0"
    and eq: "nonOverlappingEvents r = nonOverlappingEvents r0" by blast
  show "nonOverlappingEvents r = filter (\<lambda>e. \<not> onDisk t e) events"
    using findOverlappingEvents_loop_filters [OF assms r0] eq by simp
next
  assume c: "\<forall>se\<in>set (timelineEvents t). get_timelineFragments t (fragmentId se) \<noteq> None"
  from findOverlappingEvents_loop_returns [OF c] obtain r0 where
    "findOverlappingEvents_loop t
       (case linked of Some l \<Rightarrow> findExpectedOverlappingEventId t l d | None \<Rightarrow> None)
       d events [] None = Inr r0" by blast
  then show "\<exists>r. findOverlappingEventsFor t cur linked d events = Inr r"
    by (rule findOverlappingEventsFor_returns)
qed

theorem findOverlappingEventsFor_drops_duplicates_witness:
  "getByEventId demo_txn [] = None
   \<and> list_all (\<lambda>se. get_timelineFragments demo_txn (fragmentId se) \<noteq> None) (timelineEvents demo_txn)
   \<and> (\<exists>r. findOverlappingEventsFor demo_txn (Some 2) (Some 1) Backward
              [demo_event ''$a'', demo_event ''$e2'', demo_event ''$b'', demo_event ''$e1'', demo_event ''$c'']
            = Inr r
          \<and> nonOverlappingEvents r = [demo_event ''$a'', demo_event ''$b'', demo_event ''$c''])"
proof -
  have h: "getByEventId demo_txn [] = None"
    by (simp add: getByEventId_def demo_txn_def demo_event_def)
  have c: "\<forall>se\<in>set (timelineEvents demo_txn). get_timelineFragments demo_txn (fragmentId se) \<noteq> None"
    by (simp add: get_timelineFragments_def demo_txn_def demo_fragment_def)
  have f: "filter (\<lambda>e. \<not> onDisk demo_txn e)
             [demo_event ''$a'', demo_event ''$e2'', demo_event ''$b'', demo_event ''$e1'', demo_event ''$c'']
           = [demo_event ''$a'', demo_event ''$b'', demo_event ''$c'']"
    by (simp add: onDisk_def getByEventId_def demo_txn_def demo_event_def)
  have l: "list_all (\<lambda>se. get_timelineFragments demo_txn (fragmentId se) \<noteq> None) (timelineEvents demo_txn)"
    using c by (simp add: list_all_iff)
  show ?thesis
    using h c l f
      findOverlappingEventsFor_drops_duplicates [OF h, of "Some 2" "Some 1" Backward
        "[demo_event ''$a'', demo_event ''$e2'', demo_event ''$b'', demo_event ''$e1'', demo_event ''$c'']"]
    by auto
qed

subsection \<open>What a successful call went through\<close>

lemma updateFragments_success_links:
  assumes "updateFragments fe (Some ne) end_token es t = (Inr res, t')"
  shows "(fbe_linkedFragmentId fe = None \<or> fbe_linkedFragmentId fe = Some (fbe_fragmentId ne))
         \<and> (fbe_linkedFragmentId ne = None \<or> fbe_linkedFragmentId ne = Some (fbe_fragmentId fe))"
proof -
  have a: "fbe_linkedFragmentId fe = None \<or> fbe_linkedFragmentId fe = Some (fbe_fragmentId ne)"
  proof (rule ccontr)
    assume "\<not> ?thesis"
    then have "updateFragments fe (Some ne) end_token es t
                 = (Inl (PreventedChangingLink (fbe_fragmentId fe)), t)"
      by (simp add: updateFragments_conflict_first)
    then show False using assms by simp
  qed
  have b: "fbe_linkedFragmentId ne = None \<or> fbe_linkedFragmentId ne = Some (fbe_fragmentId fe)"
  proof (rule ccontr)
    assume "\<not> ?thesis"
    then have "updateFragments fe (Some ne) end_token es t
                 = (Inl (PreventedChangingLink (fbe_fragmentId ne)), t)"
      using a updateFragments_conflict_second [of fe ne end_token es t] by simp
    then show False using assms by simp
  qed
  show ?thesis using a b by (rule conjI)
qed

lemma updateFragments_success_linked:
  assumes "updateFragments fe (Some ne) end_token es t = (Inr (changed, es1), t')"
  shows "changed = [fragment (fbe_set_token (fbe_set_linkedFragmentId fe (Some (fbe_fragmentId ne))) None),
                    fragment (fbe_set_token (fbe_set_linkedFragmentId ne (Some (fbe_fragmentId fe))) None)]
         \<and> es1 = directionalAppend (directionalAppend es
                    (BoundaryEntry (fbe_set_token (fbe_set_linkedFragmentId fe (Some (fbe_fragmentId ne))) None))
                    (fbe_direction fe))
                  (BoundaryEntry (fbe_set_token (fbe_set_linkedFragmentId ne (Some (fbe_fragmentId fe))) None))
                  (fbe_direction fe)
         \<and> t' = update_timelineFragments (update_timelineFragments t
                    (fragment (fbe_set_token (fbe_set_linkedFragmentId ne (Some (fbe_fragmentId fe))) None)))
                    (fragment (fbe_set_token (fbe_set_linkedFragmentId fe (Some (fbe_fragmentId ne))) None))"
proof -
  from updateFragments_success_links [OF assms]
  have ok: "fbe_linkedFragmentId fe = None \<or> fbe_linkedFragmentId fe = Some (fbe_fragmentId ne)"
           "fbe_linkedFragmentId ne = None \<or> fbe_linkedFragmentId ne = Some (fbe_fragmentId fe)"
    by blast+
  show ?thesis
    using assms updateFragments_link [OF ok, of end_token es t] by (simp add: Let_def)
qed

lemma updateFragments_timelineEvents:
  "timelineEvents (snd (updateFragments fe nb end_token es t)) = timelineEvents t"
  by (simp add: updateFragments_def Let_def split: option.splits)

lemma directionalAppend_set [simp]: "set (directionalAppend xs x d) = insert x (set xs)"
  by (simp add: directionalAppend_def)

lemma writeFragmentFill_success_cases:
  assumes "writeFragmentFill this fe0 response t = (Inr r, t')"
  shows "\<exists>chunk0 end0 fragment0.
           chunk response = Some chunk0 \<and> end_msg response = Some end0
         \<and> get_timelineFragments t (fbe_fragmentId fe0) = Some fragment0
         \<and> fbe_token (withUpdatedFragment fe0 fragment0) = start_msg response
         \<and> (if chunk0 = [] then
              r = \<lparr>entries = [BoundaryEntry (fbe_set_edgeReached (withUpdatedFragment fe0 fragment0) True)],
                   updatedEntries = [], fragments = [], contextEvent = None\<rparr>
              \<and> t' = update_timelineFragments t (fragment (fbe_set_edgeReached (withUpdatedFragment fe0 fragment0) True))
            else
              (\<exists>ov es us t1 es1.
                 findOverlappingEvents t (withUpdatedFragment fe0 fragment0) chunk0 = Inr ov
               \<and> storeEvents this (nonOverlappingEvents ov)
                    (findFragmentEdgeEventKey this t (withUpdatedFragment fe0 fragment0))
                    (fbe_direction fe0) (state_msg response) t = ((es, us), t1)
               \<and> updateFragments (withUpdatedFragment fe0 fragment0) (neighbourFragmentEntry ov)
                    (if neighbourFragmentEntry ov = None \<and> nonOverlappingEvents ov = [] then None else Some end0)
                    es t1 = (Inr (fragments r, es1), t')
               \<and> entries r = es1))"
  using assms
  by (auto simp: writeFragmentFill_def Let_def split: option.splits if_splits sum.splits prod.splits)

lemma updateFragments_joined:
  assumes "updateFragments fe nb end_token es t = (Inr (changed, es1), t')"
      and "changed \<noteq> []"
  shows "\<exists>ne a b. nb = Some ne \<and> changed = [fragment a, fragment b] \<and> joined t' a b
           \<and> fbe_fragmentId a = fbe_fragmentId fe \<and> fbe_fragmentId b = fbe_fragmentId ne
           \<and> isFragmentStart a = isFragmentStart fe \<and> isFragmentStart b = isFragmentStart ne"
proof (cases nb)
  case None
  then show ?thesis using assms by (simp add: updateFragments_no_neighbour)
next
  case (Some ne)
  define a where "a = fbe_set_token (fbe_set_linkedFragmentId fe (Some (fbe_fragmentId ne))) None"
  define b where "b = fbe_set_token (fbe_set_linkedFragmentId ne (Some (fbe_fragmentId fe))) None"
  from updateFragments_success_linked [OF assms(1) [unfolded Some]]
  have ch: "changed = [fragment a, fragment b]"
    and t': "t' = update_timelineFragments (update_timelineFragments t (fragment b)) (fragment a)"
    by (simp_all add: a_def b_def)
  have "joined t' a b"
    unfolding joined_def t'
    by (simp add: frag_id_fragment) (simp add: a_def b_def)
  moreover have "fbe_fragmentId a = fbe_fragmentId fe" "fbe_fragmentId b = fbe_fragmentId ne"
    "isFragmentStart a = isFragmentStart fe" "isFragmentStart b = isFragmentStart ne"
    by (simp_all add: a_def b_def)
  ultimately show ?thesis using Some ch by blast
qed

lemma linkOverlapping_success_cases:
  assumes "linkOverlapping this mainO otherO ev token state t = (Inr r, t')"
  shows "\<exists>fe es us t1 es1.
           neighbourFragmentEntry mainO = Some fe
         \<and> storeEvents this (rev (nonOverlappingEvents mainO) @ [ev] @ nonOverlappingEvents otherO)
              (findFragmentEdgeEventKey this t fe) (fbe_direction fe) state t = ((es, us), t1)
         \<and> updateFragments fe (neighbourFragmentEntry otherO) token es t1 = (Inr (fragments r, es1), t')"
  using assms
  by (auto simp: linkOverlapping_def Let_def split: option.splits sum.splits prod.splits)

lemma writeContext_success_cases:
  assumes "writeContext this response t = (Inr r, t')"
  shows "events_before response \<noteq> None \<and> events_after response \<noteq> None
         \<and> truthy (start_ctx response) \<and> truthy (end_ctx response)
         \<and> ((\<exists>e. getByEventId t (event_id (event_ctx response)) = Some e \<and> t' = t \<and> fragments r = [])
            \<or> (\<exists>mainO otherO token t0.
                  linkOverlapping this mainO otherO (event_ctx response) token (state_ctx response) t0 = (Inr r, t')))"
proof -
  obtain b a where ba: "events_before response = Some b" "events_after response = Some a"
    using assms by (auto simp: writeContext_def split: option.splits)
  have tok: "truthy (start_ctx response)" "truthy (end_ctx response)"
    using assms ba by (auto simp: writeContext_def split: if_splits)
  show ?thesis
  proof (cases "getByEventId t (event_id (event_ctx response))")
    case (Some e)
    then show ?thesis using assms ba tok by (auto simp: writeContext_def)
  next
    case None
    have "\<exists>mainO otherO token t0.
            linkOverlapping this mainO otherO (event_ctx response) token (state_ctx response) t0 = (Inr r, t')"
      using assms ba tok None
      by (simp add: writeContext_def Let_def split: sum.splits if_splits prod.splits) blast+
    then show ?thesis using ba tok by simp
  qed
qed

lemma get_timelineFragments_id: "get_timelineFragments t i = Some f \<Longrightarrow> frag_id f = i"
  by (auto simp: get_timelineFragments_def find_Some_iff)

lemma findOverlappingEvents_not_self:
  "findOverlappingEvents t fe events = Inr ov \<Longrightarrow> neighbourFragmentEntry ov = Some b \<Longrightarrow>
   fbe_fragmentId b \<noteq> fbe_fragmentId fe"
  using findOverlappingEventsFor_cases
          [of t "Some (fbe_fragmentId fe)" _ "fbe_direction fe" events ov]
  by (auto simp: findOverlappingEvents_def Let_def)

text \<open>
  C2, as amended. The token invariant is not preserved by every successful call; what the
  code keeps is this. A successful \<open>writeFragmentFill\<close> with an empty chunk stores the
  fragment with \<open>edgeReached\<close> set and with its token on that side unchanged, equal to
  \<open>response.start\<close> (the token is not cleared). A successful \<open>writeFragmentFill\<close> that reports
  changed fragments has linked the filled fragment to another fragment: both are stored,
  each names the other on the joined side, and both joined-side tokens are null. A
  successful \<open>writeContext\<close> that reports changed fragments has joined two boundary entries
  in the same way (the second fragment is stored so when it is another fragment).
\<close>

theorem tokens_after_successful_write:
  "(\<forall>r t'. writeFragmentFill this fe response t = (Inr r, t') \<longrightarrow>
       (chunk response = Some [] \<longrightarrow>
          (\<exists>f. get_timelineFragments t' (fbe_fragmentId fe) = Some f \<and> edgeReached f = Some True
               \<and> fbe_token (withUpdatedFragment fe f) = start_msg response))
     \<and> (fragments r \<noteq> [] \<longrightarrow>
          (\<exists>a b. fragments r = [fragment a, fragment b]
               \<and> fbe_fragmentId a = fbe_fragmentId fe \<and> isFragmentStart a = isFragmentStart fe
               \<and> fbe_fragmentId b \<noteq> fbe_fragmentId fe \<and> joined t' a b)))
   \<and> (\<forall>r t'. writeContext this cresponse t = (Inr r, t') \<longrightarrow>
       (fragments r \<noteq> [] \<longrightarrow> (\<exists>a b. fragments r = [fragment a, fragment b] \<and> joined t' a b)))"
proof (intro conjI allI impI)
  fix r t'
  assume run: "writeFragmentFill this fe response t = (Inr r, t')" and empty: "chunk response = Some []"
  from writeFragmentFill_success_cases [OF run] empty obtain fragment0 where
    f0: "get_timelineFragments t (fbe_fragmentId fe) = Some fragment0"
    and tok: "fbe_token (withUpdatedFragment fe fragment0) = start_msg response"
    and t': "t' = update_timelineFragments t (fragment (fbe_set_edgeReached (withUpdatedFragment fe fragment0) True))"
    by auto
  have id: "frag_id fragment0 = fbe_fragmentId fe" using f0 by (rule get_timelineFragments_id)
  show "\<exists>f. get_timelineFragments t' (fbe_fragmentId fe) = Some f \<and> edgeReached f = Some True
               \<and> fbe_token (withUpdatedFragment fe f) = start_msg response"
    using tok id
    by (auto simp: t' fbe_set_edgeReached_def withUpdatedFragment_def fbe_token_def split: if_splits)
next
  fix r t'
  assume run: "writeFragmentFill this fe response t = (Inr r, t')" and ch: "fragments r \<noteq> []"
  from writeFragmentFill_success_cases [OF run] obtain chunk0 end0 fragment0 where
    f0: "get_timelineFragments t (fbe_fragmentId fe) = Some fragment0"
    and rest: "if chunk0 = [] then
              r = \<lparr>entries = [BoundaryEntry (fbe_set_edgeReached (withUpdatedFragment fe fragment0) True)],
                   updatedEntries = [], fragments = [], contextEvent = None\<rparr>
              \<and> t' = update_timelineFragments t (fragment (fbe_set_edgeReached (withUpdatedFragment fe fragment0) True))
            else
              (\<exists>ov es us t1 es1.
                 findOverlappingEvents t (withUpdatedFragment fe fragment0) chunk0 = Inr ov
               \<and> storeEvents this (nonOverlappingEvents ov)
                    (findFragmentEdgeEventKey this t (withUpdatedFragment fe fragment0))
                    (fbe_direction fe) (state_msg response) t = ((es, us), t1)
               \<and> updateFragments (withUpdatedFragment fe fragment0) (neighbourFragmentEntry ov)
                    (if neighbourFragmentEntry ov = None \<and> nonOverlappingEvents ov = [] then None else Some end0)
                    es t1 = (Inr (fragments r, es1), t')
               \<and> entries r = es1)"
    by blast
  have ne: "chunk0 \<noteq> []" using rest ch by (auto split: if_splits)
  then obtain ov es t1 es1 tk where
    ov: "findOverlappingEvents t (withUpdatedFragment fe fragment0) chunk0 = Inr ov"
    and up: "updateFragments (withUpdatedFragment fe fragment0) (neighbourFragmentEntry ov) tk es t1
               = (Inr (fragments r, es1), t')"
    using rest by auto
  have id: "fbe_fragmentId (withUpdatedFragment fe fragment0) = fbe_fragmentId fe"
    using get_timelineFragments_id [OF f0] by (simp add: withUpdatedFragment_def fbe_fragmentId_def)
  from updateFragments_joined [OF up ch] obtain nb a b where
    ab: "neighbourFragmentEntry ov = Some nb" "fragments r = [fragment a, fragment b]" "joined t' a b"
        "fbe_fragmentId a = fbe_fragmentId (withUpdatedFragment fe fragment0)"
        "fbe_fragmentId b = fbe_fragmentId nb"
        "isFragmentStart a = isFragmentStart (withUpdatedFragment fe fragment0)"
    by blast
  have nself: "fbe_fragmentId b \<noteq> fbe_fragmentId fe"
    using findOverlappingEvents_not_self [OF ov ab(1)] ab(5) id by simp
  have aid: "fbe_fragmentId a = fbe_fragmentId fe" using ab(4) id by simp
  have ast: "isFragmentStart a = isFragmentStart fe" using ab(6) by (simp add: withUpdatedFragment_def)
  show "\<exists>a b. fragments r = [fragment a, fragment b]
               \<and> fbe_fragmentId a = fbe_fragmentId fe \<and> isFragmentStart a = isFragmentStart fe
               \<and> fbe_fragmentId b \<noteq> fbe_fragmentId fe \<and> joined t' a b"
    using ab(2,3) nself aid ast by blast
next
  fix r t'
  assume run: "writeContext this cresponse t = (Inr r, t')" and ch: "fragments r \<noteq> []"
  from writeContext_success_cases [OF run] ch obtain mainO otherO token t0 where
    "linkOverlapping this mainO otherO (event_ctx cresponse) token (state_ctx cresponse) t0 = (Inr r, t')"
    by auto
  from linkOverlapping_success_cases [OF this] obtain fe1 es t1 es1 where
    "updateFragments fe1 (neighbourFragmentEntry otherO) token es t1 = (Inr (fragments r, es1), t')"
    by blast
  from updateFragments_joined [OF this ch]
  show "\<exists>a b. fragments r = [fragment a, fragment b] \<and> joined t' a b" by blast
qed

theorem tokens_after_successful_write_witness:
  "(case fst (writeFragmentFill demo_writer demo_start (demo_messages [] ''p'' ''q'') demo_txn) of
      Inr r \<Rightarrow>
        (\<exists>f. get_timelineFragments
                (snd (writeFragmentFill demo_writer demo_start (demo_messages [] ''p'' ''q'') demo_txn)) 1 = Some f
             \<and> edgeReached f = Some True \<and> previousToken f = Some ''p'')
    | Inl err \<Rightarrow> False)
   \<and> (case fst (writeFragmentFill demo_writer
                   \<lparr>fragment = demo_fragment\<lparr>frag_id := 2\<rparr>, isFragmentStart = True\<rparr>
                   (demo_messages [demo_event ''$e4'', demo_event ''$e3'', demo_event ''$e2''] ''p2'' ''q'')
                   demo_txn2) of
         Inr r \<Rightarrow>
           fragments r \<noteq> []
           \<and> (\<exists>a b. fragments r = [fragment a, fragment b] \<and> fbe_fragmentId a = 2
                  \<and> fbe_fragmentId b \<noteq> 2
                  \<and> joined (snd (writeFragmentFill demo_writer
                       \<lparr>fragment = demo_fragment\<lparr>frag_id := 2\<rparr>, isFragmentStart = True\<rparr>
                       (demo_messages [demo_event ''$e4'', demo_event ''$e3'', demo_event ''$e2''] ''p2'' ''q'')
                       demo_txn2)) a b)
       | Inl err \<Rightarrow> False)"
proof -
  let ?X = "writeFragmentFill demo_writer demo_start (demo_messages [] ''p'' ''q'') demo_txn"
  let ?Y = "writeFragmentFill demo_writer
              \<lparr>fragment = demo_fragment\<lparr>frag_id := 2\<rparr>, isFragmentStart = True\<rparr>
              (demo_messages [demo_event ''$e4'', demo_event ''$e3'', demo_event ''$e2''] ''p2'' ''q'')
              demo_txn2"
  have x: "succeeded ?X" by code_simp
  then obtain rx where rx: "?X = (Inr rx, snd ?X)"
    by (cases ?X; cases "fst ?X") (auto simp: succeeded_def)
  have y: "case fst ?Y of Inr r \<Rightarrow> fragments r \<noteq> [] | Inl err \<Rightarrow> False" by code_simp
  then obtain ry where ry: "?Y = (Inr ry, snd ?Y)" "fragments ry \<noteq> []"
    by (cases ?Y; cases "fst ?Y") auto
  have cx: "chunk (demo_messages [] ''p'' ''q'') = Some []" by (simp add: demo_messages_def)
  have ix: "fbe_fragmentId demo_start = 1" "isFragmentStart demo_start"
    "start_msg (demo_messages [] ''p'' ''q'') = Some ''p''"
    by (simp_all add: demo_start_def demo_fragment_def fbe_fragmentId_def demo_messages_def)
  have iy: "fbe_fragmentId \<lparr>fragment = demo_fragment\<lparr>frag_id := 2\<rparr>, isFragmentStart = True\<rparr> = 2"
    by (simp add: fbe_fragmentId_def)
  have tx: "\<forall>r t'. ?X = (Inr r, t') \<longrightarrow>
       (chunk (demo_messages [] ''p'' ''q'') = Some [] \<longrightarrow>
          (\<exists>f. get_timelineFragments t' (fbe_fragmentId demo_start) = Some f \<and> edgeReached f = Some True
               \<and> fbe_token (withUpdatedFragment demo_start f) = start_msg (demo_messages [] ''p'' ''q'')))
     \<and> (fragments r \<noteq> [] \<longrightarrow>
          (\<exists>a b. fragments r = [fragment a, fragment b]
               \<and> fbe_fragmentId a = fbe_fragmentId demo_start \<and> isFragmentStart a = isFragmentStart demo_start
               \<and> fbe_fragmentId b \<noteq> fbe_fragmentId demo_start \<and> joined t' a b))"
    using tokens_after_successful_write [of demo_writer demo_start "demo_messages [] ''p'' ''q''" demo_txn]
    by (rule conjunct1)
  have "\<exists>f. get_timelineFragments (snd ?X) (fbe_fragmentId demo_start) = Some f \<and> edgeReached f = Some True
               \<and> fbe_token (withUpdatedFragment demo_start f) = start_msg (demo_messages [] ''p'' ''q'')"
    using tx rx cx by blast
  then have px: "\<exists>f. get_timelineFragments (snd ?X) 1 = Some f
             \<and> edgeReached f = Some True \<and> previousToken f = Some ''p''"
    using ix by (simp add: fbe_token_def withUpdatedFragment_def)
  let ?fe = "\<lparr>fragment = demo_fragment\<lparr>frag_id := 2\<rparr>, isFragmentStart = True\<rparr>"
  have ty: "\<forall>r t'. ?Y = (Inr r, t') \<longrightarrow>
       (chunk (demo_messages [demo_event ''$e4'', demo_event ''$e3'', demo_event ''$e2''] ''p2'' ''q'') = Some [] \<longrightarrow>
          (\<exists>f. get_timelineFragments t' (fbe_fragmentId ?fe) = Some f \<and> edgeReached f = Some True
               \<and> fbe_token (withUpdatedFragment ?fe f)
                   = start_msg (demo_messages [demo_event ''$e4'', demo_event ''$e3'', demo_event ''$e2''] ''p2'' ''q'')))
     \<and> (fragments r \<noteq> [] \<longrightarrow>
          (\<exists>a b. fragments r = [fragment a, fragment b]
               \<and> fbe_fragmentId a = fbe_fragmentId ?fe \<and> isFragmentStart a = isFragmentStart ?fe
               \<and> fbe_fragmentId b \<noteq> fbe_fragmentId ?fe \<and> joined t' a b))"
    using tokens_after_successful_write [of demo_writer ?fe
            "demo_messages [demo_event ''$e4'', demo_event ''$e3'', demo_event ''$e2''] ''p2'' ''q''" demo_txn2]
    by (rule conjunct1)
  have "\<exists>a b. fragments ry = [fragment a, fragment b]
               \<and> fbe_fragmentId a = fbe_fragmentId ?fe \<and> isFragmentStart a = isFragmentStart ?fe
               \<and> fbe_fragmentId b \<noteq> fbe_fragmentId ?fe \<and> joined (snd ?Y) a b"
    using ty ry by blast
  then have py: "\<exists>a b. fragments ry = [fragment a, fragment b] \<and> fbe_fragmentId a = 2
                  \<and> fbe_fragmentId b \<noteq> 2 \<and> joined (snd ?Y) a b"
    unfolding iy by blast
  have fx: "fst ?X = Inr rx" using rx by (metis fst_conv)
  have fy: "fst ?Y = Inr ry" using ry(1) by (metis fst_conv)
  show ?thesis
    unfolding fx fy using px py ry(2) by simp
qed

text \<open>
  C2 as stated fails: in the small room both sides of the only fragment satisfy the token
  invariant; \<open>writeFragmentFill\<close> with an empty chunk succeeds, and afterwards the start
  side has \<open>edgeReached\<close> set while its token is still \<open>p\<close>.
\<close>

theorem empty_chunk_breaks_token_invariant:
  "spec_tokenInvariant demo_start
   \<and> spec_tokenInvariant \<lparr>fragment = demo_fragment, isFragmentStart = False\<rparr>
   \<and> timelineFragments demo_txn = [demo_fragment]
   \<and> succeeded (writeFragmentFill demo_writer demo_start (demo_messages [] ''p'' ''q'') demo_txn)
   \<and> timelineFragments (snd (writeFragmentFill demo_writer demo_start (demo_messages [] ''p'' ''q'') demo_txn))
       = [demo_fragment\<lparr>edgeReached := Some True\<rparr>]
   \<and> \<not> spec_tokenInvariant \<lparr>fragment = demo_fragment\<lparr>edgeReached := Some True\<rparr>, isFragmentStart = True\<rparr>
   \<and> fbe_token \<lparr>fragment = demo_fragment\<lparr>edgeReached := Some True\<rparr>, isFragmentStart = True\<rparr> = Some ''p''"
  by code_simp

subsection \<open>The fill path cannot link a fragment to itself\<close>

lemma set_update_timelineFragments:
  "set (timelineFragments (update_timelineFragments t f)) \<subseteq> insert f (set (timelineFragments t))"
  by (auto simp: update_timelineFragments_def)

lemma get_timelineFragments_stored:
  "get_timelineFragments t i = Some f \<Longrightarrow> f \<in> set (timelineFragments t)"
  by (auto simp: get_timelineFragments_def find_Some_iff)

lemma lookupNeighbour_stored:
  "lookupNeighbour t d dup = Inr b \<Longrightarrow> fragment b \<in> set (timelineFragments t)"
  by (auto simp: lookupNeighbour_def get_timelineFragments_stored split: option.splits)

lemma findOverlappingEvents_loop_neighbour:
  "findOverlappingEvents_loop t ex d remaining acc n = Inr r \<Longrightarrow>
   neighbourFragmentEntry r = Some b \<Longrightarrow>
   n = Some b \<or> fragment b \<in> set (timelineFragments t)"
proof (induction t ex d remaining acc n rule: findOverlappingEvents_loop.induct)
  case (1 t ex d remaining acc n)
  show ?case
  proof (cases "remaining \<noteq> [] \<and> truthy (findFirstOccurringEventId t (map event_id remaining))")
    case False
    then show ?thesis using "1.prems"
      by (subst (asm) findOverlappingEvents_loop.simps) (auto simp: Let_def split: if_splits)
  next
    case True
    then have ne: "remaining \<noteq> []"
      and tr: "truthy (findFirstOccurringEventId t (map event_id remaining))" by simp_all
    define dup where "dup = findFirstOccurringEventId t (map event_id remaining)"
    define nb where "nb = (if (\<not> truthy ex \<or> dup = ex) \<and> n = None
                           then map_sum id Some (lookupNeighbour t d (the dup))
                           else Inr n)"
    obtain i where i: "findIndex (\<lambda>e. Some (event_id e) = dup) remaining = Some i"
      using "1.prems"(1) ne tr
      by (subst (asm) findOverlappingEvents_loop.simps)
         (auto simp: Let_def dup_def split: option.splits)
    have unfold: "findOverlappingEvents_loop t ex d remaining acc n =
            (case nb of Inl err \<Rightarrow> Inl err
             | Inr n1 \<Rightarrow> findOverlappingEvents_loop t ex d (drop (i + 1) remaining) (acc @ take i remaining) n1)"
      using ne tr i
      by (subst findOverlappingEvents_loop.simps) (simp add: Let_def nb_def dup_def)
    then obtain n1 where n1: "nb = Inr n1"
      and rec: "findOverlappingEvents_loop t ex d (drop (i + 1) remaining) (acc @ take i remaining) n1 = Inr r"
      using "1.prems"(1) by (cases nb) auto
    have "n1 = Some b \<or> fragment b \<in> set (timelineFragments t)"
      using "1.IH" [OF ne refl refl tr i [unfolded dup_def] refl n1 [unfolded nb_def dup_def] rec "1.prems"(2)] .
    moreover have "n1 = n \<or> (\<exists>b'. n1 = Some b' \<and> fragment b' \<in> set (timelineFragments t))"
    proof (cases "(\<not> truthy ex \<or> dup = ex) \<and> n = None")
      case True
      then have "map_sum id Some (lookupNeighbour t d (the dup)) = Inr n1"
        using n1 by (simp add: nb_def)
      then obtain b' where "lookupNeighbour t d (the dup) = Inr b'" "n1 = Some b'"
        by (cases "lookupNeighbour t d (the dup)") auto
      then show ?thesis using lookupNeighbour_stored by blast
    next
      case False
      then show ?thesis using n1 by (auto simp: nb_def)
    qed
    ultimately show ?thesis by auto
  qed
qed

lemma findOverlappingEvents_neighbour_stored:
  assumes "findOverlappingEvents t fe events = Inr ov" and "neighbourFragmentEntry ov = Some b"
  shows "fragment b \<in> set (timelineFragments t)"
proof -
  from findOverlappingEventsFor_cases
         [of t "Some (fbe_fragmentId fe)"
             "if fbe_hasLinkedFragment fe then fbe_linkedFragmentId fe else None"
             "fbe_direction fe" events ov]
       assms(1)
  obtain r0 where
    r0: "findOverlappingEvents_loop t
           (case (if fbe_hasLinkedFragment fe then fbe_linkedFragmentId fe else None) of
              Some l \<Rightarrow> findExpectedOverlappingEventId t l (fbe_direction fe) | None \<Rightarrow> None)
           (fbe_direction fe) events [] None = Inr r0"
    and nb: "neighbourFragmentEntry ov = neighbourFragmentEntry r0 \<or> neighbourFragmentEntry ov = None"
    by (auto simp: findOverlappingEvents_def Let_def)
  have "neighbourFragmentEntry r0 = Some b" using nb assms(2) by auto
  from findOverlappingEvents_loop_neighbour [OF r0 this] show ?thesis by simp
qed

lemma noSelfLink_set_token:
  "spec_noSelfLink (fragment (fbe_set_token e x)) = spec_noSelfLink (fragment e)"
  by (simp add: spec_noSelfLink_def fbe_set_token_def)

lemma noSelfLink_set_edgeReached:
  "spec_noSelfLink (fragment (fbe_set_edgeReached e x)) = spec_noSelfLink (fragment e)"
  by (simp add: spec_noSelfLink_def fbe_set_edgeReached_def)

lemma noSelfLink_set_linked:
  "spec_noSelfLink (fragment e) \<Longrightarrow> i \<noteq> fbe_fragmentId e \<Longrightarrow>
   spec_noSelfLink (fragment (fbe_set_linkedFragmentId e (Some i)))"
  by (auto simp: spec_noSelfLink_def fbe_set_linkedFragmentId_def fbe_fragmentId_def)

lemma writeFragmentFill_keeps_noSelfLink:
  assumes run: "writeFragmentFill this fe response t = (Inr r, t')"
      and inv: "\<forall>f\<in>set (timelineFragments t). spec_noSelfLink f"
  shows "\<forall>f\<in>set (timelineFragments t'). spec_noSelfLink f"
proof -
  from writeFragmentFill_success_cases [OF run] obtain chunk0 end0 fragment0 where
    f0: "get_timelineFragments t (fbe_fragmentId fe) = Some fragment0"
    and rest: "if chunk0 = [] then
              r = \<lparr>entries = [BoundaryEntry (fbe_set_edgeReached (withUpdatedFragment fe fragment0) True)],
                   updatedEntries = [], fragments = [], contextEvent = None\<rparr>
              \<and> t' = update_timelineFragments t (fragment (fbe_set_edgeReached (withUpdatedFragment fe fragment0) True))
            else
              (\<exists>ov es us t1 es1.
                 findOverlappingEvents t (withUpdatedFragment fe fragment0) chunk0 = Inr ov
               \<and> storeEvents this (nonOverlappingEvents ov)
                    (findFragmentEdgeEventKey this t (withUpdatedFragment fe fragment0))
                    (fbe_direction fe) (state_msg response) t = ((es, us), t1)
               \<and> updateFragments (withUpdatedFragment fe fragment0) (neighbourFragmentEntry ov)
                    (if neighbourFragmentEntry ov = None \<and> nonOverlappingEvents ov = [] then None else Some end0)
                    es t1 = (Inr (fragments r, es1), t')
               \<and> entries r = es1)"
    by blast
  let ?fe = "withUpdatedFragment fe fragment0"
  have f0ok: "spec_noSelfLink (fragment ?fe)"
    using get_timelineFragments_stored [OF f0] inv by (simp add: withUpdatedFragment_def)
  show ?thesis
  proof (cases "chunk0 = []")
    case True
    then have "t' = update_timelineFragments t (fragment (fbe_set_edgeReached ?fe True))"
      using rest by simp
    then show ?thesis
      using set_update_timelineFragments [of t "fragment (fbe_set_edgeReached ?fe True)"] inv f0ok
      by (auto simp: noSelfLink_set_edgeReached)
  next
    case False
    then obtain ov es us t1 es1 tk where
      ov: "findOverlappingEvents t ?fe chunk0 = Inr ov"
      and st: "storeEvents this (nonOverlappingEvents ov) (findFragmentEdgeEventKey this t ?fe)
                 (fbe_direction fe) (state_msg response) t = ((es, us), t1)"
      and up: "updateFragments ?fe (neighbourFragmentEntry ov) tk es t1 = (Inr (fragments r, es1), t')"
      using rest by auto
    have t1: "timelineFragments t1 = timelineFragments t"
      using storeEvents_loop_fragments [of this "nonOverlappingEvents ov" "fbe_direction fe"
              "state_msg response" 0 "findFragmentEdgeEventKey this t ?fe" "[]" "[]" t] st
      by (simp add: storeEvents_def)
    show ?thesis
    proof (cases "neighbourFragmentEntry ov")
      case None
      then have "t' = update_timelineFragments t1 (fragment (fbe_set_token ?fe tk))"
        using up by (simp add: updateFragments_no_neighbour)
      then show ?thesis
        using set_update_timelineFragments [of t1 "fragment (fbe_set_token ?fe tk)"] inv f0ok t1
        by (auto simp: noSelfLink_set_token)
    next
      case (Some ne)
      have neq: "fbe_fragmentId ne \<noteq> fbe_fragmentId ?fe"
        using findOverlappingEvents_not_self [OF ov Some] .
      have neok: "spec_noSelfLink (fragment ne)"
        using findOverlappingEvents_neighbour_stored [OF ov Some] inv by simp
      define a where "a = fbe_set_token (fbe_set_linkedFragmentId ?fe (Some (fbe_fragmentId ne))) None"
      define b where "b = fbe_set_token (fbe_set_linkedFragmentId ne (Some (fbe_fragmentId ?fe))) None"
      have t': "t' = update_timelineFragments (update_timelineFragments t1 (fragment b)) (fragment a)"
        using updateFragments_success_linked [OF up [unfolded Some]] by (simp add: a_def b_def)
      have aok: "spec_noSelfLink (fragment a)"
        unfolding a_def noSelfLink_set_token using f0ok neq by (rule noSelfLink_set_linked)
      have bok: "spec_noSelfLink (fragment b)"
        unfolding b_def noSelfLink_set_token using neok neq [symmetric] by (rule noSelfLink_set_linked)
      have "set (timelineFragments t') \<subseteq> insert (fragment a) (insert (fragment b) (set (timelineFragments t)))"
        unfolding t'
        using set_update_timelineFragments [of "update_timelineFragments t1 (fragment b)" "fragment a"]
              set_update_timelineFragments [of t1 "fragment b"] t1
        by auto
      then show ?thesis using aok bok inv by auto
    qed
  qed
qed

text \<open>
  C1. No stored fragment may link to itself after a successful call. \<open>writeFragmentFill\<close>
  keeps this (the lemma above: its overlap search discards a neighbour that is the
  fragment itself). \<open>writeContext\<close> breaks it when both overlap searches find the same
  fragment: in the small room, with the stored event \<open>$e1\<close> before and the stored event
  \<open>$e2\<close> after an unknown event \<open>$x\<close>, the call succeeds and fragment 1, which had no
  links, is stored with \<open>nextId\<close> equal to its own id.
\<close>

theorem writeContext_links_fragment_to_itself:
  "timelineFragments demo_txn = [demo_fragment]
   \<and> frag_id demo_fragment = 1 \<and> nextId demo_fragment = None \<and> previousId demo_fragment = None
   \<and> getByEventId demo_txn ''$x'' = None
   \<and> succeeded (writeContext demo_writer
        (demo_context (demo_event ''$x'') [demo_event ''$e1''] [demo_event ''$e2'']) demo_txn)
   \<and> get_timelineFragments (snd (writeContext demo_writer
        (demo_context (demo_event ''$x'') [demo_event ''$e1''] [demo_event ''$e2'']) demo_txn)) 1
       = Some (demo_fragment\<lparr>nextId := Some 1, nextToken := None\<rparr>)"
  by code_simp

text \<open>The stored fragment of that run links to itself.\<close>

theorem writeContext_links_fragment_to_itself_witness:
  "\<exists>f. get_timelineFragments (snd (writeContext demo_writer
           (demo_context (demo_event ''$x'') [demo_event ''$e1''] [demo_event ''$e2'']) demo_txn)) 1 = Some f
       \<and> frag_id f = 1 \<and> nextId f = Some (frag_id f)"
  using writeContext_links_fragment_to_itself by (simp add: demo_fragment_def)

text \<open>
  C5 as stated fails: in the small room a fill with one new event succeeds and moves the
  token to \<open>response.end\<close>; writing the same response again fails at the token guard.
\<close>

theorem second_fill_fails_token_guard:
  "succeeded (writeFragmentFill demo_writer demo_start (demo_messages [demo_event ''$e0''] ''p'' ''q'') demo_txn)
   \<and> \<not> succeeded (writeFragmentFill demo_writer demo_start (demo_messages [demo_event ''$e0''] ''p'' ''q'')
          (snd (writeFragmentFill demo_writer demo_start (demo_messages [demo_event ''$e0''] ''p'' ''q'') demo_txn)))
   \<and> fst (writeFragmentFill demo_writer demo_start (demo_messages [demo_event ''$e0''] ''p'' ''q'')
          (snd (writeFragmentFill demo_writer demo_start (demo_messages [demo_event ''$e0''] ''p'' ''q'') demo_txn)))
      = Inl StartNotEqualToken"
  by code_simp

subsection \<open>Writing a response a second time\<close>

lemma fbe_set_edgeReached_facts [simp]:
  "fbe_token (fbe_set_edgeReached e b) = fbe_token e"
  "fbe_fragmentId (fbe_set_edgeReached e b) = fbe_fragmentId e"
  "isFragmentStart (fbe_set_edgeReached e b) = isFragmentStart e"
  "fbe_set_edgeReached (fbe_set_edgeReached e b) b = fbe_set_edgeReached e b"
  by (simp_all add: fbe_set_edgeReached_def fbe_token_def fbe_fragmentId_def)

lemma withUpdatedFragment_own [simp]:
  "isFragmentStart e = isFragmentStart fe \<Longrightarrow> withUpdatedFragment fe (fragment e) = e"
  by (simp add: withUpdatedFragment_def)

lemma withUpdatedFragment_facts [simp]:
  "isFragmentStart (withUpdatedFragment fe f) = isFragmentStart fe"
  "fbe_fragmentId (withUpdatedFragment fe f) = frag_id f"
  "fbe_direction (withUpdatedFragment fe f) = fbe_direction fe"
  by (simp_all add: withUpdatedFragment_def fbe_fragmentId_def fbe_direction_def)

lemma updateFragments_stored:
  assumes "updateFragments fe nb tk es t = (Inr res, t')"
  shows "\<exists>f. get_timelineFragments t' (fbe_fragmentId fe) = Some f
           \<and> fbe_token (withUpdatedFragment fe f) = (if nb = None then tk else None)"
proof (cases nb)
  case None
  then have "t' = update_timelineFragments t (fragment (fbe_set_token fe tk))"
    using assms by (simp add: updateFragments_no_neighbour)
  then show ?thesis using None by (simp add: frag_id_fragment)
next
  case (Some ne)
  obtain changed es1 where "res = (changed, es1)" by (cases res)
  from updateFragments_success_linked [OF assms [unfolded Some this]]
  have "t' = update_timelineFragments (update_timelineFragments t
                    (fragment (fbe_set_token (fbe_set_linkedFragmentId ne (Some (fbe_fragmentId fe))) None)))
                    (fragment (fbe_set_token (fbe_set_linkedFragmentId fe (Some (fbe_fragmentId ne))) None))"
    by simp
  then show ?thesis using Some by (simp add: frag_id_fragment)
qed

lemma storeEvents_stores:
  assumes "storeEvents this events key d st t = (res, t1)" and "ev \<in> set events"
  shows "getByEventId t1 (event_id ev) \<noteq> None"
proof -
  have t1: "timelineEvents t1 = timelineEvents t
              @ map (\<lambda>j. stampedEntry this events st d (keyAfter key d (Suc j - 0)) j) [0..<length events]"
    using storeEvents_loop_inserts [of this events d st 0 key "[]" "[]" t] assms(1)
    by (simp add: storeEvents_def)
  obtain k where k: "k < length events" "events ! k = ev"
    using assms(2) by (auto simp: in_set_conv_nth)
  have "stampedEntry this events st d (keyAfter key d (Suc k - 0)) k \<in> set (timelineEvents t1)"
    unfolding t1 using k(1) by simp
  moreover have "event_id (event (stampedEntry this events st d (keyAfter key d (Suc k - 0)) k)) = event_id ev"
    using k(2) by simp
  ultimately show ?thesis
    unfolding getByEventId_def find_None_iff by blast
qed

lemma linkOverlapping_stores_event:
  assumes "linkOverlapping this mainO otherO ev token state t = (Inr r, t')"
  shows "getByEventId t' (event_id ev) \<noteq> None"
proof -
  from linkOverlapping_success_cases [OF assms] obtain fe es us t1 es1 where
    st: "storeEvents this (rev (nonOverlappingEvents mainO) @ [ev] @ nonOverlappingEvents otherO)
              (findFragmentEdgeEventKey this t fe) (fbe_direction fe) state t = ((es, us), t1)"
    and up: "updateFragments fe (neighbourFragmentEntry otherO) token es t1 = (Inr (fragments r, es1), t')"
    by blast
  have "timelineEvents t' = timelineEvents t1"
    using updateFragments_timelineEvents [of fe "neighbourFragmentEntry otherO" token es t1] up by simp
  then have "getByEventId t' (event_id ev) = getByEventId t1 (event_id ev)"
    by (simp add: getByEventId_def)
  then show ?thesis using storeEvents_stores [OF st, of ev] by simp
qed

lemma writeContext_early_return:
  "events_before response = Some b \<Longrightarrow> events_after response = Some a \<Longrightarrow>
   truthy (start_ctx response) \<Longrightarrow> truthy (end_ctx response) \<Longrightarrow>
   getByEventId t (event_id (event_ctx response)) = Some existing \<Longrightarrow>
   writeContext this response t =
     (Inr \<lparr>entries = [], updatedEntries = [], fragments = [],
           contextEvent = Some (EventEntry existing)\<rparr>, t)"
  by (simp add: writeContext_def)

lemma writeFragmentFill_success_nonempty:
  assumes run: "writeFragmentFill this fe0 response t = (Inr r, t')"
      and ne: "chunk response \<noteq> Some []"
  shows "\<exists>end0 fragment0 nb tk es t1 es1.
           end_msg response = Some end0
         \<and> get_timelineFragments t (fbe_fragmentId fe0) = Some fragment0
         \<and> (tk = None \<or> tk = Some end0)
         \<and> updateFragments (withUpdatedFragment fe0 fragment0) nb tk es t1 = (Inr (fragments r, es1), t')"
proof -
  from writeFragmentFill_success_cases [OF run] obtain c e f0 where
    A: "chunk response = Some c" "end_msg response = Some e"
       "get_timelineFragments t (fbe_fragmentId fe0) = Some f0"
    and B: "if c = [] then
              r = \<lparr>entries = [BoundaryEntry (fbe_set_edgeReached (withUpdatedFragment fe0 f0) True)],
                   updatedEntries = [], fragments = [], contextEvent = None\<rparr>
              \<and> t' = update_timelineFragments t (fragment (fbe_set_edgeReached (withUpdatedFragment fe0 f0) True))
            else
              (\<exists>ov es us t1 es1.
                 findOverlappingEvents t (withUpdatedFragment fe0 f0) c = Inr ov
               \<and> storeEvents this (nonOverlappingEvents ov)
                    (findFragmentEdgeEventKey this t (withUpdatedFragment fe0 f0))
                    (fbe_direction fe0) (state_msg response) t = ((es, us), t1)
               \<and> updateFragments (withUpdatedFragment fe0 f0) (neighbourFragmentEntry ov)
                    (if neighbourFragmentEntry ov = None \<and> nonOverlappingEvents ov = [] then None else Some e)
                    es t1 = (Inr (fragments r, es1), t')
               \<and> entries r = es1)"
    by blast
  have c: "c \<noteq> []" using A(1) ne by simp
  define tkf where "tkf ov = (if neighbourFragmentEntry ov = None \<and> nonOverlappingEvents ov = []
                              then None else Some e)" for ov :: overlap
  have tkf: "tkf ov = None \<or> tkf ov = Some e" for ov by (simp add: tkf_def)
  note E = B [unfolded if_not_P [OF c], folded tkf_def]
  from E obtain ov es t1 es1 where
    up: "updateFragments (withUpdatedFragment fe0 f0) (neighbourFragmentEntry ov) (tkf ov) es t1
           = (Inr (fragments r, es1), t')"
    by blast
  show ?thesis using A(2,3) tkf [of ov] up by blast
qed

text \<open>
  C5, as amended. After a successful \<open>writeContext\<close>, writing the same response again
  succeeds, returns early with the stored entry and leaves the transaction as it is. After
  a successful \<open>writeFragmentFill\<close> with an empty chunk, writing the same response again
  succeeds with the same result and leaves the transaction as it is. After a successful
  \<open>writeFragmentFill\<close> with a non-empty chunk whose start token is non-null and differs from
  its end token, writing the same response again fails at the token guard and leaves the
  transaction as it is.
\<close>

theorem second_write_of_same_response:
  "(\<forall>r t'. writeContext this cresponse t = (Inr r, t') \<longrightarrow>
       (\<exists>existing. writeContext this cresponse t' =
           (Inr \<lparr>entries = [], updatedEntries = [], fragments = [],
                 contextEvent = Some (EventEntry existing)\<rparr>, t')))
   \<and> (\<forall>r t'. writeFragmentFill this fe response t = (Inr r, t') \<longrightarrow>
       (chunk response = Some [] \<longrightarrow> writeFragmentFill this fe response t' = (Inr r, t'))
     \<and> (chunk response \<noteq> Some [] \<and> start_msg response \<noteq> None \<and> start_msg response \<noteq> end_msg response
          \<longrightarrow> writeFragmentFill this fe response t' = (Inl StartNotEqualToken, t')))"
proof (intro conjI allI impI)
  fix r t'
  assume run: "writeContext this cresponse t = (Inr r, t')"
  from writeContext_success_cases [OF run] obtain b a where
    v: "events_before cresponse = Some b" "events_after cresponse = Some a"
       "truthy (start_ctx cresponse)" "truthy (end_ctx cresponse)"
    and c: "(\<exists>e. getByEventId t (event_id (event_ctx cresponse)) = Some e \<and> t' = t \<and> fragments r = [])
            \<or> (\<exists>mainO otherO token t0.
                  linkOverlapping this mainO otherO (event_ctx cresponse) token (state_ctx cresponse) t0 = (Inr r, t'))"
    by auto
  have "getByEventId t' (event_id (event_ctx cresponse)) \<noteq> None"
    using c linkOverlapping_stores_event by auto
  then obtain existing where "getByEventId t' (event_id (event_ctx cresponse)) = Some existing" by auto
  from writeContext_early_return [OF v this]
  show "\<exists>existing. writeContext this cresponse t' =
           (Inr \<lparr>entries = [], updatedEntries = [], fragments = [],
                 contextEvent = Some (EventEntry existing)\<rparr>, t')" by blast
next
  fix r t'
  assume run: "writeFragmentFill this fe response t = (Inr r, t')" and empty: "chunk response = Some []"
  from writeFragmentFill_success_cases [OF run] empty obtain end0 fragment0 where
    e0: "end_msg response = Some end0"
    and f0: "get_timelineFragments t (fbe_fragmentId fe) = Some fragment0"
    and tok: "fbe_token (withUpdatedFragment fe fragment0) = start_msg response"
    and r: "r = \<lparr>entries = [BoundaryEntry (fbe_set_edgeReached (withUpdatedFragment fe fragment0) True)],
                   updatedEntries = [], fragments = [], contextEvent = None\<rparr>"
    and t': "t' = update_timelineFragments t (fragment (fbe_set_edgeReached (withUpdatedFragment fe fragment0) True))"
    by auto
  define fe1 where "fe1 = fbe_set_edgeReached (withUpdatedFragment fe fragment0) True"
  have id: "frag_id fragment0 = fbe_fragmentId fe" using f0 by (rule get_timelineFragments_id)
  have g: "get_timelineFragments t' (fbe_fragmentId fe) = Some (fragment fe1)"
    using id by (simp add: t' fe1_def frag_id_fragment)
  have w: "withUpdatedFragment fe (fragment fe1) = fe1" by (simp add: fe1_def)
  have tk: "fbe_token fe1 = start_msg response" using tok by (simp add: fe1_def)
  have again: "fbe_set_edgeReached fe1 True = fe1" by (simp add: fe1_def)
  have same: "update_timelineFragments t' (fragment fe1) = t'" by (simp add: t' fe1_def)
  show "writeFragmentFill this fe response t' = (Inr r, t')"
    using empty e0 g
    by (simp add: writeFragmentFill_def Let_def w tk again same r fe1_def [symmetric])
next
  fix r t'
  assume run: "writeFragmentFill this fe response t = (Inr r, t')"
    and h: "chunk response \<noteq> Some [] \<and> start_msg response \<noteq> None \<and> start_msg response \<noteq> end_msg response"
  from writeFragmentFill_success_nonempty [OF run] h obtain end0 fragment0 nb tk es t1 es1 where
    e0: "end_msg response = Some end0"
    and f0: "get_timelineFragments t (fbe_fragmentId fe) = Some fragment0"
    and tk: "tk = None \<or> tk = Some end0"
    and up: "updateFragments (withUpdatedFragment fe fragment0) nb tk es t1 = (Inr (fragments r, es1), t')"
    by blast
  obtain chunk0 where c0: "chunk response = Some chunk0"
    using writeFragmentFill_success_cases [OF run] by blast
  have id: "frag_id fragment0 = fbe_fragmentId fe" using f0 by (rule get_timelineFragments_id)
  from updateFragments_stored [OF up] obtain f where
    f: "get_timelineFragments t' (fbe_fragmentId fe) = Some f"
    and ft0: "fbe_token (withUpdatedFragment (withUpdatedFragment fe fragment0) f) = (if nb = None then tk else None)"
    using id by auto
  have ft: "fbe_token (withUpdatedFragment (withUpdatedFragment fe fragment0) f) = None
             \<or> fbe_token (withUpdatedFragment (withUpdatedFragment fe fragment0) f) = Some end0"
    using ft0 tk by (cases "nb = None") auto
  have "withUpdatedFragment (withUpdatedFragment fe fragment0) f = withUpdatedFragment fe f"
    by (simp add: withUpdatedFragment_def)
  then have "fbe_token (withUpdatedFragment fe f) \<noteq> start_msg response"
    using ft h e0 by auto
  then show "writeFragmentFill this fe response t' = (Inl StartNotEqualToken, t')"
    using c0 e0 f by (simp add: writeFragmentFill_def Let_def)
qed

theorem second_write_of_same_response_witness:
  "succeeded (writeContext demo_writer (demo_context (demo_event ''$x'') [] []) demo_txn)
   \<and> (\<exists>existing.
         writeContext demo_writer (demo_context (demo_event ''$x'') [] [])
           (snd (writeContext demo_writer (demo_context (demo_event ''$x'') [] []) demo_txn))
         = (Inr \<lparr>entries = [], updatedEntries = [], fragments = [],
                 contextEvent = Some (EventEntry existing)\<rparr>,
            snd (writeContext demo_writer (demo_context (demo_event ''$x'') [] []) demo_txn)))
   \<and> succeeded (writeFragmentFill demo_writer demo_start (demo_messages [] ''p'' ''q'') demo_txn)
   \<and> writeFragmentFill demo_writer demo_start (demo_messages [] ''p'' ''q'')
         (snd (writeFragmentFill demo_writer demo_start (demo_messages [] ''p'' ''q'') demo_txn))
       = writeFragmentFill demo_writer demo_start (demo_messages [] ''p'' ''q'') demo_txn
   \<and> succeeded (writeFragmentFill demo_writer demo_start (demo_messages [demo_event ''$e0''] ''p'' ''q'') demo_txn)
   \<and> writeFragmentFill demo_writer demo_start (demo_messages [demo_event ''$e0''] ''p'' ''q'')
         (snd (writeFragmentFill demo_writer demo_start (demo_messages [demo_event ''$e0''] ''p'' ''q'') demo_txn))
       = (Inl StartNotEqualToken,
          snd (writeFragmentFill demo_writer demo_start (demo_messages [demo_event ''$e0''] ''p'' ''q'') demo_txn))"
proof -
  let ?C = "writeContext demo_writer (demo_context (demo_event ''$x'') [] []) demo_txn"
  let ?E = "writeFragmentFill demo_writer demo_start (demo_messages [] ''p'' ''q'') demo_txn"
  let ?N = "writeFragmentFill demo_writer demo_start (demo_messages [demo_event ''$e0''] ''p'' ''q'') demo_txn"
  have sc: "succeeded ?C" by code_simp
  then obtain rc where rc: "?C = (Inr rc, snd ?C)"
    by (cases ?C; cases "fst ?C") (auto simp: succeeded_def)
  have se: "succeeded ?E" by code_simp
  then obtain re where re: "?E = (Inr re, snd ?E)"
    by (cases ?E; cases "fst ?E") (auto simp: succeeded_def)
  have sn: "succeeded ?N" by code_simp
  then obtain rn where rn: "?N = (Inr rn, snd ?N)"
    by (cases ?N; cases "fst ?N") (auto simp: succeeded_def)
  have ce: "chunk (demo_messages [] ''p'' ''q'') = Some []" by (simp add: demo_messages_def)
  have cn: "chunk (demo_messages [demo_event ''$e0''] ''p'' ''q'') \<noteq> Some []
            \<and> start_msg (demo_messages [demo_event ''$e0''] ''p'' ''q'') \<noteq> None
            \<and> start_msg (demo_messages [demo_event ''$e0''] ''p'' ''q'')
                \<noteq> end_msg (demo_messages [demo_event ''$e0''] ''p'' ''q'')"
    by (simp add: demo_messages_def)
  note T1 = second_write_of_same_response
              [of demo_writer "demo_context (demo_event ''$x'') [] []" demo_txn demo_start
                  "demo_messages [] ''p'' ''q''"]
  note T2 = second_write_of_same_response
              [of demo_writer "demo_context (demo_event ''$x'') [] []" demo_txn demo_start
                  "demo_messages [demo_event ''$e0''] ''p'' ''q''"]
  have a: "\<exists>existing. writeContext demo_writer (demo_context (demo_event ''$x'') [] []) (snd ?C)
         = (Inr \<lparr>entries = [], updatedEntries = [], fragments = [],
                 contextEvent = Some (EventEntry existing)\<rparr>, snd ?C)"
    using T1 [THEN conjunct1] rc by blast
  have b: "writeFragmentFill demo_writer demo_start (demo_messages [] ''p'' ''q'') (snd ?E) = (Inr re, snd ?E)"
    using T1 [THEN conjunct2] re ce by blast
  have c: "writeFragmentFill demo_writer demo_start (demo_messages [demo_event ''$e0''] ''p'' ''q'') (snd ?N)
             = (Inl StartNotEqualToken, snd ?N)"
    using T2 [THEN conjunct2] rn cn by blast
  show ?thesis using sc se sn a b [folded re] c by blast
qed

end
